theory Spec2Isabelle
  imports Main "HOL-Library.Word"
begin

section \<open>Bytes, strings and formatting\<close>

text \<open>
  Go strings are byte sequences (UTF-8 for text). A \<^typ>\<open>string\<close> is a list of 8-bit
  characters, so a Go string literal is modelled byte for byte; the two bytes of a
  non-ASCII letter are written out. File contents are lists of \<^typ>\<open>8 word\<close>.
\<close>

type_synonym u8 = "8 word"
type_synonym u16 = "16 word"

definition e_acute :: string where
  "e_acute = [CHR 0xC3, CHR 0xA9]"

definition u_circ :: string where
  "u_circ = [CHR 0xC3, CHR 0xBB]"

definition quoted :: "string \<Rightarrow> string" where
  "quoted s = [CHR 0x27] @ s @ [CHR 0x27]"

definition newline :: string where
  "newline = [CHR 0x0A]"

text \<open>\<open>strings.Join(elems, sep)\<close>.\<close>

fun strings_Join :: "string list \<Rightarrow> string \<Rightarrow> string" where
  "strings_Join [] sep = []"
| "strings_Join [x] sep = x"
| "strings_Join (x # y # ys) sep = x @ sep @ strings_Join (y # ys) sep"

text \<open>
  \<open>strings.ToLower\<close>: a string of ASCII bytes only is lower-cased byte by byte
  (\<open>'A'..'Z'\<close> moved by \<open>'a' - 'A'\<close>); any other string goes through the Unicode case
  tables, which are a parameter here.
\<close>

definition ascii_lower :: "char \<Rightarrow> char" where
  "ascii_lower c =
     (if c \<in> set ''ABCDEFGHIJKLMNOPQRSTUVWXYZ''
      then ''abcdefghijklmnopqrstuvwxyz'' ! ((of_char c :: nat) - 65) else c)"

definition isASCII :: "string \<Rightarrow> bool" where
  "isASCII s = list_all (\<lambda>c. (of_char c :: nat) < 128) s"

definition strings_ToLower :: "(string \<Rightarrow> string) \<Rightarrow> string \<Rightarrow> string" where
  "strings_ToLower unicode_lower s =
     (if isASCII s then map ascii_lower s else unicode_lower s)"

text \<open>The verbs \<open>%d\<close>, \<open>%02d\<close> and \<open>%03d\<close> of \<open>fmt\<close> on an unsigned value.\<close>

definition digit :: "nat \<Rightarrow> char" where
  "digit n = ''0123456789'' ! n"

fun fmt_d :: "nat \<Rightarrow> string" where
  "fmt_d n = (if n < 10 then [digit n] else fmt_d (n div 10) @ [digit (n mod 10)])"

declare fmt_d.simps [simp del]

definition fmt_0d :: "nat \<Rightarrow> nat \<Rightarrow> string" where
  "fmt_0d width n = replicate (width - length (fmt_d n)) (CHR ''0'') @ fmt_d n"

section \<open>Paths (\<open>path/filepath\<close> on a system whose separator is the slash)\<close>

definition IsPathSeparator :: "char \<Rightarrow> bool" where
  "IsPathSeparator c = (c = CHR ''/'')"

text \<open>The elements of a path: the pieces between separators, empty ones included.\<close>

fun split_path :: "string \<Rightarrow> string list" where
  "split_path [] = [[]]"
| "split_path (c # cs) =
     (if IsPathSeparator c then [] # split_path cs
      else (case split_path cs of [] \<Rightarrow> [[c]] | e # es \<Rightarrow> (c # e) # es))"

text \<open>
  \<open>filepath.Clean\<close> reads the path element by element and keeps the elements of the
  result in a buffer: an empty element and \<open>.\<close> are skipped; \<open>..\<close> removes the last
  element written if there is one that is not itself \<open>..\<close>, is written when the
  path is not rooted, and is dropped at the root; any other element is written. The
  result is the buffer joined by slashes, after the leading slash of a rooted path,
  and \<open>.\<close> when nothing was written.
\<close>

definition clean_step :: "bool \<Rightarrow> string list \<Rightarrow> string \<Rightarrow> string list" where
  "clean_step rooted written e =
     (if e = [] \<or> e = ''.'' then written
      else if e = ''..'' then
        (if written \<noteq> [] \<and> last written \<noteq> ''..'' then butlast written
         else if \<not> rooted then written @ [''..'']
         else written)
      else written @ [e])"

definition render_path :: "bool \<Rightarrow> string list \<Rightarrow> string" where
  "render_path rooted written =
     (if rooted then ''/'' @ strings_Join written ''/''
      else if written = [] then ''.''
      else strings_Join written ''/'')"

definition filepath_Clean :: "string \<Rightarrow> string" where
  "filepath_Clean path =
     (case path of
        [] \<Rightarrow> ''.''
      | c # _ \<Rightarrow>
          render_path (IsPathSeparator c)
            (foldl (clean_step (IsPathSeparator c)) [] (split_path path)))"

text \<open>
  \<open>filepath.Join\<close>: the elements from the first non-empty one on, joined by slashes
  and cleaned; the empty string when every element is empty.
\<close>

definition filepath_Join :: "string list \<Rightarrow> string" where
  "filepath_Join elem =
     (case dropWhile (\<lambda>e. e = []) elem of
        [] \<Rightarrow> []
      | es \<Rightarrow> filepath_Clean (strings_Join es ''/''))"

text \<open>
  \<open>filepath.Ext\<close> scans from the end of the path back to the last separator and
  returns the suffix that starts at the first dot it meets.
\<close>

fun ext_scan :: "string \<Rightarrow> string \<Rightarrow> string" where
  "ext_scan [] suffix = []"
| "ext_scan (c # cs) suffix =
     (if IsPathSeparator c then []
      else if c = CHR ''.'' then c # suffix
      else ext_scan cs (c # suffix))"

definition filepath_Ext :: "string \<Rightarrow> string" where
  "filepath_Ext path = ext_scan (rev path) []"

section \<open>Errors\<close>

datatype errno = ENOENT | EEXIST | EACCES | EISDIR | ENOTDIR | EIO

fun errno_text :: "errno \<Rightarrow> string" where
  "errno_text ENOENT = ''no such file or directory''"
| "errno_text EEXIST = ''file exists''"
| "errno_text EACCES = ''permission denied''"
| "errno_text EISDIR = ''is a directory''"
| "errno_text ENOTDIR = ''not a directory''"
| "errno_text EIO = ''input/output error''"

text \<open>
  A Go \<open>error\<close> is either the \<open>*fs.PathError\<close> of a failed system call (operation,
  path, cause) or an error made from a message (\<open>fmt.Errorf\<close>, the errors of the
  JSON decoder and of the inference client). \<open>error_text\<close> is what its method
  \<open>Error()\<close> returns, which is what the verb \<open>%v\<close> prints. A nil error is \<open>None\<close>.
\<close>

datatype go_error = PathError string string errno | ErrorString string

fun error_text :: "go_error \<Rightarrow> string" where
  "error_text (PathError op path e) = op @ '' '' @ path @ '': '' @ errno_text e"
| "error_text (ErrorString s) = s"

fun os_IsNotExist :: "go_error option \<Rightarrow> bool" where
  "os_IsNotExist (Some (PathError op path e)) = (e = ENOENT)"
| "os_IsNotExist _ = False"

text \<open>A run-time panic of Go: an index outside a slice, with the index and the length.\<close>

datatype panic = IndexOutOfRange int nat

datatype outcome = Returned | Panicked panic

section \<open>Entities\<close>

text \<open>
  \<open>TableContent\<close>, \<open>TableContentEntry\<close> and \<open>Game\<close> are the structs of
  \<open>internal/abstractions/entities\<close>.
\<close>

record TableContentEntry =
  entry_Title :: string
  PageNumbers :: "u8 list"

record TableContent =
  toc_Error :: string
  Entries :: "TableContentEntry list"

record Game =
  game_Title :: string
  Console :: string
  Score :: "32 word"
  OutOf :: "32 word"

text \<open>
  Modelled from the spec: the declarations of \<open>MagazinePage\<close>, \<open>MagazinePages\<close>,
  \<open>MagazineMetadata\<close>, \<open>Magazine\<close> and \<open>Audit\<close> are not among the sources. The fields
  are the ones the services read and write; the integer widths are those the sources
  fix (\<open>MagazinePage.Number\<close> is compared with a \<open>uint8\<close> page number, \<open>Month\<close> is the
  \<open>[]uint8\<close> argument of \<open>toNames\<close>) or those of the \<open>Publication\<close> struct of the
  stand-alone program, which decodes the same JSON (\<open>Number uint8\<close>, \<open>Year uint16\<close>).
  A nil slice and an empty slice are both the empty list. The time stamp of an audit
  event is left out.
\<close>

record MagazinePage =
  File :: string
  Number :: u8

record MagazinePages =
  pages_Folder :: string
  pages_Pages :: "MagazinePage list"

record MagazineMetadata =
  Title :: string
  meta_Number :: u8
  Month :: "u8 list"
  Year :: u16

record Magazine =
  Metadata :: MagazineMetadata
  Pages :: "MagazinePage list"
  Folder :: string

datatype Severity = Debug | Information | Error

record Audit =
  Severity :: Severity
  Text :: string

section \<open>The environment\<close>

text \<open>
  The operating system, the inference service and the library tables the sources rely
  on are a parameter of the model: a record of operations on a state \<^typ>\<open>'w\<close> of the
  outside world. Every call takes the state and returns it with its result, so a
  later call may see what an earlier one did.

  \<^item> \<open>os_Stat\<close>, \<open>os_Mkdir\<close>, \<open>os_Open\<close>, \<open>os_Create\<close>: the calls of package \<open>os\<close>, by
    path; the result is the error, \<open>None\<close> for nil. An open file is named by its path.
  \<^item> \<open>file_Read\<close>: the successive reads of an open file until its end, as the chunks
    read and the error that stopped the reading, if any.
  \<^item> \<open>io_Copy dst src\<close>: \<open>io.Copy\<close> from the open file \<open>src\<close> to the created file \<open>dst\<close>.
  \<^item> \<open>Responses_New prompt image\<close>: the request of the inference client, with the
    text of the prompt and the image URL; the result is the output text or the error.
  \<^item> \<open>unicode_ToLower\<close>: the lower-casing of a string that is not pure ASCII.
  \<^item> \<open>Unmarshal_MagazineMetadata\<close>, \<open>Unmarshal_Game\<close>: \<open>json.Unmarshal\<close> into a fresh
    variable of that type. \<open>Unmarshal_TableContent data v\<close>: \<open>json.Unmarshal\<close> into a
    variable that holds \<open>v\<close>; the result is the error and the value the variable holds
    afterwards.
\<close>

record 'w world =
  os_Stat :: "string \<Rightarrow> 'w \<Rightarrow> go_error option \<times> 'w"
  os_Mkdir :: "string \<Rightarrow> 'w \<Rightarrow> go_error option \<times> 'w"
  os_Open :: "string \<Rightarrow> 'w \<Rightarrow> go_error option \<times> 'w"
  os_Create :: "string \<Rightarrow> 'w \<Rightarrow> go_error option \<times> 'w"
  file_Read :: "string \<Rightarrow> 'w \<Rightarrow> (u8 list list \<times> go_error option) \<times> 'w"
  io_Copy :: "string \<Rightarrow> string \<Rightarrow> 'w \<Rightarrow> go_error option \<times> 'w"
  Responses_New :: "string \<Rightarrow> string \<Rightarrow> 'w \<Rightarrow> (go_error + string) \<times> 'w"
  unicode_ToLower :: "string \<Rightarrow> string"
  Unmarshal_MagazineMetadata :: "string \<Rightarrow> go_error + MagazineMetadata"
  Unmarshal_TableContent :: "string \<Rightarrow> TableContent \<Rightarrow> go_error option \<times> TableContent"
  Unmarshal_Game :: "string \<Rightarrow> go_error + Game"

text \<open>
  The state of the running program: the outside world, the events appended to the
  audit log, the lines printed, the values sent on \<open>magazinesChannel\<close> in order, and
  whether that channel has been closed.
\<close>

record 'w process =
  sys :: 'w
  auditLog :: "Audit list"
  stdout :: "string list"
  sent :: "Magazine list"
  closed :: bool

text \<open>
  Modelled from the spec: the audit service is not among the sources. Its \<open>Log\<close>
  appends the event to the log and never fails its caller.
\<close>

definition Log :: "Severity \<Rightarrow> string \<Rightarrow> 'w process \<Rightarrow> 'w process" where
  "Log severity text s = s \<lparr> auditLog := auditLog s @ [\<lparr> Severity = severity, Text = text \<rparr>] \<rparr>"

definition Print :: "string \<Rightarrow> 'w process \<Rightarrow> 'w process" where
  "Print line s = s \<lparr> stdout := stdout s @ [line] \<rparr>"


definition Send :: "Magazine \<Rightarrow> 'w process \<Rightarrow> 'w process" where
  "Send magazine s = s \<lparr> sent := sent s @ [magazine] \<rparr>"

section \<open>The inference client (\<open>internal/ai\<close>)\<close>

text \<open>
  \<open>base64.StdEncoding\<close>: the alphabet, and \<open>Encode\<close>, which turns every three bytes
  into four characters and pads a last group of one or two bytes with \<open>=\<close>.
\<close>

definition encodeStd :: string where
  "encodeStd = ''ABCDEFGHIJKLMNOPQRSTUVWXYZabcdefghijklmnopqrstuvwxyz0123456789+/''"

definition sextet :: "nat \<Rightarrow> nat \<Rightarrow> char" where
  "sextet val shift = encodeStd ! ((val div 2 ^ shift) mod 64)"

definition quantum :: "nat \<Rightarrow> string" where
  "quantum val = [sextet val 18, sextet val 12, sextet val 6, sextet val 0]"

fun Encode :: "u8 list \<Rightarrow> string" where
  "Encode (b0 # b1 # b2 # src) =
     quantum (unat b0 * 2 ^ 16 + unat b1 * 2 ^ 8 + unat b2) @ Encode src"
| "Encode [b0, b1] = take 3 (quantum (unat b0 * 2 ^ 16 + unat b1 * 2 ^ 8)) @ ''=''"
| "Encode [b0] = take 2 (quantum (unat b0 * 2 ^ 16)) @ ''==''"
| "Encode [] = []"

definition EncodeToString :: "u8 list \<Rightarrow> string" where
  "EncodeToString src = Encode src"

text \<open>
  The streaming encoder of \<open>base64.NewEncoder\<close>: \<open>buf\<close> holds the bytes of an
  incomplete group (fewer than three), \<open>out\<close> is what has been written to the
  underlying writer, here the \<open>strings.Builder\<close>. \<open>Write\<close> first completes a pending
  group, then encodes the complete groups of its argument and keeps the rest in
  \<open>buf\<close>. The pending bytes are encoded by \<open>Close\<close> only.
\<close>

record encoder =
  buf :: "u8 list"
  out :: string

definition NewEncoder :: "string \<Rightarrow> encoder" where
  "NewEncoder w = \<lparr> buf = [], out = w \<rparr>"

definition encoder_groups :: "encoder \<Rightarrow> u8 list \<Rightarrow> encoder" where
  "encoder_groups e p =
     (let nn = 3 * (length p div 3)
      in e \<lparr> out := out e @ Encode (take nn p), buf := drop nn p \<rparr>)"

definition encoder_Write :: "encoder \<Rightarrow> u8 list \<Rightarrow> encoder" where
  "encoder_Write e p =
     (if buf e \<noteq> [] then
        (let i = min (length p) (3 - length (buf e));
             b = buf e @ take i p
         in if length b < 3 then e \<lparr> buf := b \<rparr>
            else encoder_groups (e \<lparr> out := out e @ Encode b, buf := [] \<rparr>) (drop i p))
      else encoder_groups e p)"

definition encoder_Close :: "encoder \<Rightarrow> encoder" where
  "encoder_Close e = e \<lparr> out := out e @ Encode (buf e), buf := [] \<rparr>"

text \<open>
  \<open>SendRequestWithImage\<close>: the builder starts with the data-URI prefix, \<open>io.Copy\<close>
  writes every chunk read from the reader to an encoder on the builder, and the
  builder's string is the \<open>ImageURL\<close> of the request. The encoder is not closed.
  \<open>imageURL\<close> is the builder's string after the copy.
\<close>

definition imageURL :: "u8 list list \<Rightarrow> string" where
  "imageURL chunks =
     out (foldl encoder_Write (NewEncoder ''data:image/jpeg;base64,'') chunks)"

definition SendRequestWithImage ::
    "'w world \<Rightarrow> string \<Rightarrow> string \<Rightarrow> 'w \<Rightarrow> (go_error + string) \<times> 'w" where
  "SendRequestWithImage W assistantPrompt reader w =
     (case file_Read W reader w of
        ((chunks, Some err), w1) \<Rightarrow>
          (Inl (ErrorString (''unable to encode the image: '' @ error_text err)), w1)
      | ((chunks, None), w1) \<Rightarrow>
          (case Responses_New W assistantPrompt (imageURL chunks) w1 of
             (Inl err, w2) \<Rightarrow>
               (Inl (ErrorString (''unable to process the prompt: '' @ error_text err)), w2)
           | (Inr outputText, w2) \<Rightarrow> (Inr outputText, w2)))"

section \<open>The Analyzer (\<open>internal/analyzer\<close>)\<close>

definition CoverPageAssistantPrompt :: string where
  "CoverPageAssistantPrompt =
     ''You are given a JPG file containing an image of a cover scanner of a French publication. '' @
     ''Based on typical naming conventions and any context you can infer, return only the title, '' @
     ''publication number and publication month and year in the JSON format '' @
     ''`{ \"title\": string, \"months\": [number,], \"year\": number, \"number\": number }`. '' @
     ''If you cannot determine it, answer exactly `Unknown`. Do not add any extra explanation.''"

definition TableOfContentAssistantPrompt :: string where
  "TableOfContentAssistantPrompt =
     ''This page should be a Summary page of a french magazine. '' @
     ''Give me each section name with the page numbers. '' @
     ''Returns the structure in the following Json format: '' @
     ''{\"error\": string, \"entries\": [{\"title\": string, \"pageNumbers\": [number]}]. '' @
     ''Order the result by the Numbers from the lower number to the highest. '' @
     ''Only keep the entries that have the words '' @ quoted ''Test(s)'' @ '', '' @
     quoted (''S'' @ e_acute @ ''lection(s)'') @ '' (case insensitive)''"

definition GameTestedAssistantPrompt :: string where
  "GameTestedAssistantPrompt =
     ''This page a test of a game. Found the name of the game and the console is on. '' @
     ''If it is on the page, return the score given to the game. '' @
     ''The result should be return in the following Json format: '' @
     ''{\"title\": string, \"console\": string, \"score\": number, \"outOf\": number}.''"

text \<open>
  \<open>analyzePages\<close>. Every \<open>return\<close> of the source is a branch that yields the state
  reached; the send on \<open>magazinesChannel\<close> is the last statement.
\<close>

definition analyzePages :: "'w world \<Rightarrow> MagazinePages \<Rightarrow> 'w process \<Rightarrow> 'w process" where
  "analyzePages W magazinePages s =
     (case pages_Pages magazinePages of
        [] \<Rightarrow> Log Information ''No pages to analyze.'' s
      | cover # _ \<Rightarrow>
          (let coverFileName = File cover;
               s1 = Log Information (''Analyzing cover file '' @ quoted coverFileName @ newline) s;
               coverPath = filepath_Join [pages_Folder magazinePages, coverFileName]
           in case os_Stat W coverPath (sys s1) of
                (Some err, w1) \<Rightarrow>
                  Log Error (''Cover file '' @ quoted coverPath @
                      '' does not exist or is not accessible: '' @ error_text err)
                    (s1 \<lparr> sys := w1 \<rparr>)
              | (None, w1) \<Rightarrow>
                  (case os_Open W coverPath w1 of
                     (Some err, w2) \<Rightarrow>
                       Log Error (''Cover file '' @ quoted coverPath @
                           '' does not exist or is not accessible: '' @ error_text err)
                         (s1 \<lparr> sys := w2 \<rparr>)
                   | (None, w2) \<Rightarrow>
                       (case SendRequestWithImage W CoverPageAssistantPrompt coverPath w2 of
                          (Inl err, w3) \<Rightarrow>
                            Log Error (''An error occurred trying to analyze the cover file '' @
                                quoted coverPath @ '': '' @ error_text err)
                              (s1 \<lparr> sys := w3 \<rparr>)
                        | (Inr response, w3) \<Rightarrow>
                            (if response = [] \<or> response = ''Unknown'' then
                               Log Error (''Unable to retieve the metadata of the cover file '' @
                                   quoted coverPath)
                                 (s1 \<lparr> sys := w3 \<rparr>)
                             else
                               (case Unmarshal_MagazineMetadata W response of
                                  Inl err \<Rightarrow>
                                    Log Debug (''Received: '' @ response @ newline)
                                      (Log Error
                                         (''Unable to decode the magazine metadata of cover file '' @
                                            quoted coverPath @ '': '' @ error_text err)
                                         (s1 \<lparr> sys := w3 \<rparr>))
                                | Inr metadata \<Rightarrow>
                                    Send \<lparr> Metadata = metadata,
                                           Pages = pages_Pages magazinePages,
                                           Folder = pages_Folder magazinePages \<rparr>
                                      (Log Information
                                         (''Analysis done: found publication title is '' @
                                            quoted (Title metadata) @ '' and its number is '' @
                                            quoted (fmt_d (unat (meta_Number metadata))))
                                         (s1 \<lparr> sys := w3 \<rparr>))))))))"

text \<open>
  The first loop of \<open>analyzeTableOfContent\<close>, over \<open>magazinePages.Pages[1:]\<close>, with
  the variable \<open>tableContent\<close> declared before the loop as an argument. The result
  is \<open>None\<close> when the function returns from inside the loop, and the value of
  \<open>tableContent\<close> when the loop is left by \<open>break\<close> or at the end of the pages.
\<close>

fun candidates ::
    "'w world \<Rightarrow> string \<Rightarrow> MagazinePage list \<Rightarrow> TableContent \<Rightarrow> 'w process
       \<Rightarrow> TableContent option \<times> 'w process" where
  "candidates W folder [] tableContent s = (Some tableContent, s)"
| "candidates W folder (page # rest) tableContent s =
     (let pageFile = filepath_Join [folder, File page]
      in case os_Stat W pageFile (sys s) of
           (Some err, w1) \<Rightarrow>
             (None, Log Error (''File '' @ quoted pageFile @
                        '' does not exist or is not accessible: '' @ error_text err)
                      (s \<lparr> sys := w1 \<rparr>))
         | (None, w1) \<Rightarrow>
             (case os_Open W pageFile w1 of
                (Some err, w2) \<Rightarrow>
                  (None, Log Error (''File '' @ quoted pageFile @
                             '' does not exist or is not accessible: '' @ error_text err)
                           (s \<lparr> sys := w2 \<rparr>))
              | (None, w2) \<Rightarrow>
                  (case SendRequestWithImage W TableOfContentAssistantPrompt pageFile w2 of
                     (Inl err, w3) \<Rightarrow>
                       (None, Log Error (''An error occurred trying to analyze the file '' @
                                  quoted pageFile @ '': '' @ error_text err)
                                (s \<lparr> sys := w3 \<rparr>))
                   | (Inr response, w3) \<Rightarrow>
                       (if response = [] then
                          (None, Log Error (''Unable to retieve the metadata of the file '' @
                                     quoted pageFile)
                                   (s \<lparr> sys := w3 \<rparr>))
                        else
                          (case Unmarshal_TableContent W response tableContent of
                             (Some err, decoded) \<Rightarrow>
                               candidates W folder rest decoded
                                 (Log Debug (''Received: '' @ response @ newline)
                                    (Log Error
                                       (''Unable to decode the table of content of file '' @
                                          quoted pageFile @ '': '' @ error_text err)
                                       (s \<lparr> sys := w3 \<rparr>)))
                           | (None, decoded) \<Rightarrow>
                               (if toc_Error decoded \<noteq> [] \<or> Entries decoded = [] then
                                  candidates W folder rest decoded (s \<lparr> sys := w3 \<rparr>)
                                else (Some decoded, s \<lparr> sys := w3 \<rparr>)))))))"

text \<open>
  \<open>slices.IndexFunc\<close>: the index of the first element that satisfies the predicate,
  or \<open>-1\<close>. Indexing a slice panics outside \<open>0 \<le> i < len\<close>.
\<close>

fun index_from :: "int \<Rightarrow> 'a list \<Rightarrow> ('a \<Rightarrow> bool) \<Rightarrow> int" where
  "index_from i [] f = - 1"
| "index_from i (x # xs) f = (if f x then i else index_from (i + 1) xs f)"

definition slices_IndexFunc :: "'a list \<Rightarrow> ('a \<Rightarrow> bool) \<Rightarrow> int" where
  "slices_IndexFunc xs f = index_from 0 xs f"

definition index :: "'a list \<Rightarrow> int \<Rightarrow> panic + 'a" where
  "index xs i =
     (if 0 \<le> i \<and> i < int (length xs) then Inr (xs ! nat i)
      else Inl (IndexOutOfRange i (length xs)))"

text \<open>
  The second loop of \<open>analyzeTableOfContent\<close>: the inner loop over the page numbers
  of one entry, then the outer loop over the entries. \<open>gamesTested\<close> is the slice
  the results are appended to. A loop yields \<open>None\<close> when it runs to its end, and
  \<open>Some\<close> of the outcome when the function returns or panics inside it.
\<close>

fun pageNumbers ::
    "'w world \<Rightarrow> MagazinePages \<Rightarrow> u8 list \<Rightarrow> Game list \<Rightarrow> 'w process
       \<Rightarrow> outcome option \<times> Game list \<times> 'w process" where
  "pageNumbers W magazinePages [] gamesTested s = (None, gamesTested, s)"
| "pageNumbers W magazinePages (pageNumber # rest) gamesTested s =
     (let idx = slices_IndexFunc (pages_Pages magazinePages) (\<lambda>p. Number p = pageNumber)
      in case index (pages_Pages magazinePages) idx of
           Inl p \<Rightarrow> (Some (Panicked p), gamesTested, s)
         | Inr page \<Rightarrow>
             (let pageFile = filepath_Join [pages_Folder magazinePages, File page]
              in case os_Stat W pageFile (sys s) of
                   (Some err, w1) \<Rightarrow>
                     (Some Returned, gamesTested,
                      Log Error (''File '' @ quoted pageFile @
                          '' does not exist or is not accessible: '' @ error_text err)
                        (s \<lparr> sys := w1 \<rparr>))
                 | (None, w1) \<Rightarrow>
                     (case os_Open W pageFile w1 of
                        (Some err, w2) \<Rightarrow>
                          (Some Returned, gamesTested,
                           Log Error (''File '' @ quoted pageFile @
                               '' does not exist or is not accessible: '' @ error_text err)
                             (s \<lparr> sys := w2 \<rparr>))
                      | (None, w2) \<Rightarrow>
                          (case SendRequestWithImage W GameTestedAssistantPrompt pageFile w2 of
                             (Inl err, w3) \<Rightarrow>
                               (Some Returned, gamesTested,
                                Log Error (''An error occurred trying to analyze the file '' @
                                    quoted pageFile @ '': '' @ error_text err)
                                  (s \<lparr> sys := w3 \<rparr>))
                           | (Inr response, w3) \<Rightarrow>
                               (if response = [] then
                                  (Some Returned, gamesTested,
                                   Log Error
                                     (''Unable to retrieve the game tested from the file '' @
                                        quoted pageFile)
                                     (s \<lparr> sys := w3 \<rparr>))
                                else
                                  (case Unmarshal_Game W response of
                                     Inl err \<Rightarrow>
                                       pageNumbers W magazinePages rest gamesTested
                                         (Log Debug (''Received: '' @ response @ newline)
                                            (Log Error
                                               (''Unable to decode the table of content of file '' @
                                                  quoted pageFile @ '': '' @ error_text err)
                                               (s \<lparr> sys := w3 \<rparr>)))
                                   | Inr gameTested \<Rightarrow>
                                       pageNumbers W magazinePages rest
                                         (gamesTested @ [gameTested]) (s \<lparr> sys := w3 \<rparr>)))))))"

fun entries ::
    "'w world \<Rightarrow> MagazinePages \<Rightarrow> TableContentEntry list \<Rightarrow> Game list \<Rightarrow> 'w process
       \<Rightarrow> outcome option \<times> Game list \<times> 'w process" where
  "entries W magazinePages [] gamesTested s = (None, gamesTested, s)"
| "entries W magazinePages (entry # rest) gamesTested s =
     (case pageNumbers W magazinePages (PageNumbers entry) gamesTested s of
        (None, games, s1) \<Rightarrow> entries W magazinePages rest games s1
      | (Some stop, games, s1) \<Rightarrow> (Some stop, games, s1))"

text \<open>
  \<open>analyzeTableOfContent\<close>: \<open>tableContent\<close> starts as the zero value; the second
  loop runs on whatever \<open>tableContent.Entries\<close> holds when the first loop is left.
  The result is how the call ends, with the state reached.
\<close>

definition analyzeTableOfContent ::
    "'w world \<Rightarrow> MagazinePages \<Rightarrow> 'w process \<Rightarrow> outcome \<times> 'w process" where
  "analyzeTableOfContent W magazinePages s =
     (case pages_Pages magazinePages of
        [] \<Rightarrow> (Returned, Log Information ''No pages to analyze.'' s)
      | cover # after \<Rightarrow>
          (case candidates W (pages_Folder magazinePages) after
                  \<lparr> toc_Error = [], Entries = [] \<rparr> s of
             (None, s1) \<Rightarrow> (Returned, s1)
           | (Some tableContent, s1) \<Rightarrow>
               (case entries W magazinePages (Entries tableContent) [] s1 of
                  (Some stop, games, s2) \<Rightarrow> (stop, s2)
                | (None, games, s2) \<Rightarrow> (Returned, s2))))"

text \<open>
  \<open>monitor\<close> of the Analyzer, on the page sets its inbound channel delivers: a panic
  ends the program; at the end of the channel the outbound channel is closed.
\<close>

fun analyzer_monitor ::
    "'w world \<Rightarrow> MagazinePages list \<Rightarrow> 'w process \<Rightarrow> outcome \<times> 'w process" where
  "analyzer_monitor W [] s =
     (Returned, Log Information ''Analyzer service stopped.'' (s \<lparr> closed := True \<rparr>))"
| "analyzer_monitor W (magazinePages # rest) s =
     (case analyzeTableOfContent W magazinePages (analyzePages W magazinePages s) of
        (Panicked p, s1) \<Rightarrow> (Panicked p, s1)
      | (Returned, s1) \<Rightarrow> analyzer_monitor W rest s1)"

section \<open>The Copier (\<open>internal/copier\<close>)\<close>

definition Prefix :: string where
  "Prefix = ''test-''"

text \<open>
  Of \<open>CopierService\<close> the model keeps \<open>workingDirectory\<close>, which \<open>New\<close> takes from the
  configuration (\<open>configurationService.WorkingDirectory\<close>); the inbound channel is
  the list of magazines \<open>monitor\<close> is run on.
\<close>

record CopierService =
  workingDirectory :: string

text \<open>The table \<open>months\<close> local to \<open>toNames\<close>.\<close>

definition months :: "string list" where
  "months =
    [''Janvier'', ''F'' @ e_acute @ ''vrier'', ''Mars'', ''Avril'', ''Mai'', ''Juin'',
     ''Juillet'', ''Ao'' @ u_circ @ ''t'', ''Septembre'', ''Octobre'', ''Novembre'',
     ''D'' @ e_acute @ ''cembre'']"

text \<open>
  \<open>toNames\<close>: the loop appends \<open>months[n-1]\<close> for every \<open>n\<close> with \<open>1 \<le> n \<le> 12\<close> and
  skips the others. \<open>n\<close> is a \<open>uint8\<close>, and \<open>n-1\<close> is computed on \<open>uint8\<close>.
\<close>

definition toNames_step :: "string list \<Rightarrow> u8 \<Rightarrow> string list" where
  "toNames_step names n =
     (if 1 \<le> n \<and> n \<le> 12 then names @ [months ! unat (n - 1)] else names)"

definition toNames :: "u8 list \<Rightarrow> string list" where
  "toNames nums = foldl toNames_step [] nums"

text \<open>
  The names \<open>renameFiles\<close> computes, under the names of its local variables.
  \<open>Sprintf("%s%s", Prefix, title)\<close> is a concatenation; \<open>%02d\<close> and \<open>%03d\<close> pad the
  decimal number with zeros to two and three digits.
\<close>

definition newPublicationFolder :: "CopierService \<Rightarrow> Magazine \<Rightarrow> string" where
  "newPublicationFolder c magazine =
     filepath_Join [workingDirectory c, Prefix @ Title (Metadata magazine)]"

definition publicationMonths :: "Magazine \<Rightarrow> string" where
  "publicationMonths magazine = strings_Join (toNames (Month (Metadata magazine))) '' - ''"

definition publicationDate :: "Magazine \<Rightarrow> string" where
  "publicationDate magazine =
     publicationMonths magazine @ '' '' @ fmt_d (unat (Year (Metadata magazine)))"

definition newPublicationFolderNumber :: "CopierService \<Rightarrow> Magazine \<Rightarrow> string" where
  "newPublicationFolderNumber c magazine =
     filepath_Join
       [newPublicationFolder c magazine,
        ''Num'' @ e_acute @ ''ro '' @ fmt_0d 2 (unat (meta_Number (Metadata magazine))) @
          '' | '' @ publicationDate magazine]"

definition srcPath :: "Magazine \<Rightarrow> MagazinePage \<Rightarrow> string" where
  "srcPath magazine magazinePage = filepath_Join [Folder magazine, File magazinePage]"

definition pageFileName :: "'w world \<Rightarrow> MagazinePage \<Rightarrow> string" where
  "pageFileName W magazinePage =
     fmt_0d 3 (unat (Number magazinePage)) @
       strings_ToLower (unicode_ToLower W) (filepath_Ext (File magazinePage))"

definition dstPath :: "'w world \<Rightarrow> CopierService \<Rightarrow> Magazine \<Rightarrow> MagazinePage \<Rightarrow> string" where
  "dstPath W c magazine magazinePage =
     filepath_Join [newPublicationFolderNumber c magazine, pageFileName W magazinePage]"

text \<open>
  The block that \<open>renameFiles\<close> runs for each of the two folders: \<open>os.Mkdir\<close> when
  \<open>os.Stat\<close> reports that the folder does not exist; any other result of \<open>os.Stat\<close>
  leaves the folder as it is.
\<close>

definition createFolder :: "'w world \<Rightarrow> string \<Rightarrow> 'w \<Rightarrow> go_error option \<times> 'w" where
  "createFolder W folder w =
     (case os_Stat W folder w of
        (err, w1) \<Rightarrow>
          (if os_IsNotExist err then
             (case os_Mkdir W folder w1 of
                (Some err, w2) \<Rightarrow>
                  (Some (ErrorString (''unable to create folder '' @ folder @ '': '' @
                            error_text err)), w2)
              | (None, w2) \<Rightarrow> (None, w2))
           else (None, w1)))"

text \<open>The body of the loop over \<open>magazine.Pages\<close>, and the loop.\<close>

definition copyPage ::
    "'w world \<Rightarrow> CopierService \<Rightarrow> Magazine \<Rightarrow> MagazinePage \<Rightarrow> 'w process
       \<Rightarrow> go_error option \<times> 'w process" where
  "copyPage W c magazine magazinePage s =
     (let src = srcPath magazine magazinePage;
          dst = dstPath W c magazine magazinePage
      in case os_Open W src (sys s) of
           (Some err, w1) \<Rightarrow>
             (Some (ErrorString (''unable to open source file '' @ src @ '': '' @
                       error_text err)),
              s \<lparr> sys := w1 \<rparr>)
         | (None, w1) \<Rightarrow>
             (case os_Create W dst w1 of
                (Some err, w2) \<Rightarrow>
                  (Some (ErrorString (''unable to create destination file '' @ dst @ '': '' @
                            error_text err @ newline)),
                   s \<lparr> sys := w2 \<rparr>)
              | (None, w2) \<Rightarrow>
                  (case io_Copy W dst src w2 of
                     (Some err, w3) \<Rightarrow>
                       (Some (ErrorString (''unable to copy the file from '' @ src @ '' to '' @
                                 dst @ '': '' @ error_text err @ newline)),
                        s \<lparr> sys := w3 \<rparr>)
                   | (None, w3) \<Rightarrow>
                       (None, Print (''File '' @ dst @ '' copied'' @ newline)
                                (s \<lparr> sys := w3 \<rparr>)))))"

fun copyPages ::
    "'w world \<Rightarrow> CopierService \<Rightarrow> Magazine \<Rightarrow> MagazinePage list \<Rightarrow> 'w process
       \<Rightarrow> go_error option \<times> 'w process" where
  "copyPages W c magazine [] s = (None, s)"
| "copyPages W c magazine (magazinePage # rest) s =
     (case copyPage W c magazine magazinePage s of
        (Some err, s1) \<Rightarrow> (Some err, s1)
      | (None, s1) \<Rightarrow> copyPages W c magazine rest s1)"

definition renameFiles ::
    "'w world \<Rightarrow> CopierService \<Rightarrow> Magazine \<Rightarrow> 'w process \<Rightarrow> go_error option \<times> 'w process" where
  "renameFiles W c magazine s =
     (let s0 = Print (''Publication '' @ Title (Metadata magazine) @ '' #'' @
                  fmt_d (unat (meta_Number (Metadata magazine))) @ newline) s
      in case createFolder W (newPublicationFolder c magazine) (sys s0) of
           (Some err, w1) \<Rightarrow> (Some err, s0 \<lparr> sys := w1 \<rparr>)
         | (None, w1) \<Rightarrow>
             (case createFolder W (newPublicationFolderNumber c magazine) w1 of
                (Some err, w2) \<Rightarrow> (Some err, s0 \<lparr> sys := w2 \<rparr>)
              | (None, w2) \<Rightarrow> copyPages W c magazine (Pages magazine) (s0 \<lparr> sys := w2 \<rparr>)))"

text \<open>
  \<open>monitor\<close> of the Copier, on the magazines its inbound channel delivers. The verb
  \<open>%s\<close> applied to the \<open>uint8\<close> number prints \<open>%!s(uint8=N)\<close>.
\<close>

fun copier_monitor ::
    "'w world \<Rightarrow> CopierService \<Rightarrow> Magazine list \<Rightarrow> 'w process \<Rightarrow> go_error option \<times> 'w process" where
  "copier_monitor W c [] s = (None, Print (''Copier service stopped.'' @ newline) s)"
| "copier_monitor W c (magazine # rest) s =
     (case renameFiles W c magazine s of
        (Some err, s1) \<Rightarrow>
          (Some err,
           Print (''Unable to transfer '' @ Title (Metadata magazine) @ '' %!s(uint8='' @
                    fmt_d (unat (meta_Number (Metadata magazine))) @ ''): '' @
                    error_text err @ newline) s1)
      | (None, s1) \<Rightarrow>
          copier_monitor W c rest
            (Print (''Magazine '' @ Title (Metadata magazine) @ '' '' @
                      fmt_d (unat (meta_Number (Metadata magazine))) @
                      '' transferred'' @ newline) s1))"

section \<open>A concrete world for the examples\<close>

text \<open>
  A small world to run the services in: a flat file system (the paths of the
  directories, and the files with their contents) and an inference service and a
  JSON decoder that answer from tables (the service from a table of answers by
  prompt and image URL). A file is read in one chunk. A path that is
  not a file cannot be read.
\<close>

record disk =
  dirs :: "string list"
  files :: "(string \<times> u8 list) list"

definition present :: "string \<Rightarrow> disk \<Rightarrow> bool" where
  "present path d = (path \<in> set (dirs d) \<or> map_of (files d) path \<noteq> None)"

text \<open>
  \<open>json.Unmarshal\<close> of a JSON object into a struct sets the fields whose keys the
  object has and leaves the other fields as they are. A document of the table gives,
  for each of the keys \<open>error\<close> and \<open>entries\<close>, the value when the key is present.
\<close>

type_synonym toc_document = "string option \<times> TableContentEntry list option"

definition decode_into :: "toc_document \<Rightarrow> TableContent \<Rightarrow> TableContent" where
  "decode_into doc v =
     \<lparr> toc_Error = (case fst doc of None \<Rightarrow> toc_Error v | Some e \<Rightarrow> e),
       Entries = (case snd doc of None \<Rightarrow> Entries v | Some es \<Rightarrow> es) \<rparr>"

definition invalid_json :: go_error where
  "invalid_json = ErrorString ''invalid character looking for beginning of value''"

record tables =
  answers :: "((string \<times> string) \<times> string) list"
  metadata_documents :: "(string \<times> MagazineMetadata) list"
  toc_documents :: "(string \<times> toc_document) list"
  game_documents :: "(string \<times> Game) list"

definition example_world :: "tables \<Rightarrow> disk world" where
  "example_world t =
     \<lparr> os_Stat = (\<lambda>path d.
         (if present path d then None else Some (PathError ''stat'' path ENOENT), d)),
       os_Mkdir = (\<lambda>path d.
         if present path d then (Some (PathError ''mkdir'' path EEXIST), d)
         else (None, d \<lparr> dirs := path # dirs d \<rparr>)),
       os_Open = (\<lambda>path d.
         (if present path d then None else Some (PathError ''open'' path ENOENT), d)),
       os_Create = (\<lambda>path d.
         if path \<in> set (dirs d) then (Some (PathError ''open'' path EISDIR), d)
         else (None, d \<lparr> files := (path, []) # files d \<rparr>)),
       file_Read = (\<lambda>path d.
         (case map_of (files d) path of
            None \<Rightarrow> (([], Some (PathError ''read'' path EISDIR)), d)
          | Some bytes \<Rightarrow> (([bytes], None), d))),
       io_Copy = (\<lambda>dst src d.
         (case map_of (files d) src of
            None \<Rightarrow> (Some (PathError ''read'' src EISDIR), d)
          | Some bytes \<Rightarrow> (None, d \<lparr> files := (dst, bytes) # files d \<rparr>))),
       Responses_New = (\<lambda>prompt image d.
         (case map_of (answers t) (prompt, image) of
            None \<Rightarrow> (Inl (ErrorString ''503 Service Unavailable''), d)
          | Some text \<Rightarrow> (Inr text, d))),
       unicode_ToLower = (\<lambda>s. s),
       Unmarshal_MagazineMetadata = (\<lambda>data.
         (case map_of (metadata_documents t) data of
            None \<Rightarrow> Inl invalid_json
          | Some metadata \<Rightarrow> Inr metadata)),
       Unmarshal_TableContent = (\<lambda>data v.
         (case map_of (toc_documents t) data of
            None \<Rightarrow> (Some invalid_json, v)
          | Some doc \<Rightarrow> (None, decode_into doc v))),
       Unmarshal_Game = (\<lambda>data.
         (case map_of (game_documents t) data of
            None \<Rightarrow> Inl invalid_json
          | Some game \<Rightarrow> Inr game)) \<rparr>"

definition start :: "disk \<Rightarrow> disk process" where
  "start d = \<lparr> sys = d, auditLog = [], stdout = [], sent = [], closed = False \<rparr>"

text \<open>
  A page set of four pages in the folder \<open>/in/A1\<close>, the disk that holds it, and the
  image URLs of its pages.
\<close>

definition A1 :: MagazinePages where
  "A1 = \<lparr> pages_Folder = ''/in/A1'',
          pages_Pages =
            [\<lparr> File = ''p1.jpg'', Number = 1 \<rparr>, \<lparr> File = ''p2.jpg'', Number = 2 \<rparr>,
             \<lparr> File = ''p3.jpg'', Number = 3 \<rparr>, \<lparr> File = ''p4.jpg'', Number = 4 \<rparr>] \<rparr>"

definition disk_A1 :: disk where
  "disk_A1 =
     \<lparr> dirs = [''/in'', ''/in/A1'', ''/out''],
       files =
         [(''/in/A1/p1.jpg'', [1, 2, 3]), (''/in/A1/p2.jpg'', [4, 5, 6]),
          (''/in/A1/p3.jpg'', [7, 8, 9]), (''/in/A1/p4.jpg'', [10, 11, 12])] \<rparr>"

definition url1 :: string where "url1 = ''data:image/jpeg;base64,AQID''"
definition url2 :: string where "url2 = ''data:image/jpeg;base64,BAUG''"
definition url3 :: string where "url3 = ''data:image/jpeg;base64,BwgJ''"
definition url4 :: string where "url4 = ''data:image/jpeg;base64,CgsM''"

definition no_tables :: tables where
  "no_tables =
     \<lparr> answers = [], metadata_documents = [], toc_documents = [], game_documents = [] \<rparr>"

text \<open>
  Answers of the inference service and what the JSON decoder makes of them. In the
  first table the second page answers with an error and a section, and the third
  page with an object that has the key \<open>error\<close> only.
\<close>

definition response_partial :: string where
  "response_partial =
     ''{\"error\":\"partial page\",\"entries\":[{\"title\":\"Tests\",\"pageNumbers\":[3]}]}''"

definition response_error_only :: string where
  "response_error_only = ''{\"error\":\"\"}''"

definition stale_tables :: tables where
  "stale_tables =
     no_tables
       \<lparr> answers :=
           [((TableOfContentAssistantPrompt, url2), response_partial),
            ((TableOfContentAssistantPrompt, url3), response_error_only)],
         toc_documents :=
           [(response_partial,
               (Some ''partial page'', Some [\<lparr> entry_Title = ''Tests'', PageNumbers = [3] \<rparr>])),
            (response_error_only, (Some [], None))] \<rparr>"

text \<open>
  In the second table the second page answers that it is no summary, the third page
  with its sections and no key \<open>error\<close>, and the fourth page with an empty error and
  its sections.
\<close>

definition response_no_summary :: string where
  "response_no_summary = ''{\"error\":\"no summary found\",\"entries\":[]}''"

definition response_entries_only :: string where
  "response_entries_only = ''{\"entries\":[{\"title\":\"Tests\",\"pageNumbers\":[2]}]}''"

definition response_complete :: string where
  "response_complete =
     ''{\"error\":\"\",\"entries\":[{\"title\":\"Selection\",\"pageNumbers\":[3]}]}''"

definition skipping_tables :: tables where
  "skipping_tables =
     no_tables
       \<lparr> answers :=
           [((TableOfContentAssistantPrompt, url2), response_no_summary),
            ((TableOfContentAssistantPrompt, url3), response_entries_only),
            ((TableOfContentAssistantPrompt, url4), response_complete)],
         toc_documents :=
           [(response_no_summary, (Some ''no summary found'', Some [])),
            (response_entries_only,
               (None, Some [\<lparr> entry_Title = ''Tests'', PageNumbers = [2] \<rparr>])),
            (response_complete,
               (Some [], Some [\<lparr> entry_Title = ''Selection'', PageNumbers = [3] \<rparr>]))] \<rparr>"

text \<open>
  In the third table the second page is a summary whose only section is on page 7,
  a number that no page of the page set has.
\<close>

definition response_page7 :: string where
  "response_page7 = ''{\"error\":\"\",\"entries\":[{\"title\":\"Tests\",\"pageNumbers\":[7]}]}''"

definition page7_tables :: tables where
  "page7_tables =
     no_tables
       \<lparr> answers := [((TableOfContentAssistantPrompt, url2), response_page7)],
         toc_documents :=
           [(response_page7,
               (Some [], Some [\<lparr> entry_Title = ''Tests'', PageNumbers = [7] \<rparr>]))] \<rparr>"

text \<open>
  In the fourth table the second page gets an empty answer; in the fifth it gets an
  answer that is not JSON; in both the third page is a summary.
\<close>

definition response_page4 :: string where
  "response_page4 = ''{\"error\":\"\",\"entries\":[{\"title\":\"Tests\",\"pageNumbers\":[4]}]}''"

definition empty_answer_tables :: tables where
  "empty_answer_tables =
     no_tables
       \<lparr> answers :=
           [((TableOfContentAssistantPrompt, url2), []),
            ((TableOfContentAssistantPrompt, url3), response_page4)],
         toc_documents :=
           [(response_page4,
               (Some [], Some [\<lparr> entry_Title = ''Tests'', PageNumbers = [4] \<rparr>]))] \<rparr>"

definition malformed_answer_tables :: tables where
  "malformed_answer_tables =
     no_tables
       \<lparr> answers :=
           [((TableOfContentAssistantPrompt, url2), ''I cannot read this page.''),
            ((TableOfContentAssistantPrompt, url3), response_page4)],
         toc_documents :=
           [(response_page4,
               (Some [], Some [\<lparr> entry_Title = ''Tests'', PageNumbers = [4] \<rparr>]))] \<rparr>"

text \<open>The cover of the page set, when it is not recognised and when it is.\<close>

definition unknown_cover_tables :: tables where
  "unknown_cover_tables =
     no_tables \<lparr> answers := [((CoverPageAssistantPrompt, url1), ''Unknown'')] \<rparr>"

definition response_tilt :: string where
  "response_tilt = ''{\"title\":\"Tilt\",\"months\":[6],\"year\":1991,\"number\":42}''"

definition tilt :: MagazineMetadata where
  "tilt = \<lparr> Title = ''Tilt'', meta_Number = 42, Month = [6], Year = 1991 \<rparr>"

definition tilt_tables :: tables where
  "tilt_tables =
     no_tables
       \<lparr> answers := [((CoverPageAssistantPrompt, url1), response_tilt)],
         metadata_documents := [(response_tilt, tilt)] \<rparr>"

text \<open>
  For the Copier: a service that writes under \<open>/out\<close>; a magazine of one page whose
  file name has an upper-case extension, on its own disk; a magazine whose second
  page names a file that the disk of \<open>A1\<close> does not have; and the magazine that
  follows it on the channel.
\<close>

definition copier_out :: CopierService where
  "copier_out = \<lparr> workingDirectory = ''/out'' \<rparr>"


definition tilt_scan :: Magazine where
  "tilt_scan =
     \<lparr> Metadata = tilt, Pages = [\<lparr> File = ''Cover.JPG'', Number = 1 \<rparr>], Folder = ''/in/B'' \<rparr>"

definition tilt_broken :: Magazine where
  "tilt_broken =
     \<lparr> Metadata = tilt,
       Pages = [\<lparr> File = ''p1.jpg'', Number = 1 \<rparr>, \<lparr> File = ''p9.jpg'', Number = 2 \<rparr>,
                \<lparr> File = ''p3.jpg'', Number = 3 \<rparr>],
       Folder = ''/in/A1'' \<rparr>"

definition tilt_next :: Magazine where
  "tilt_next =
     \<lparr> Metadata = \<lparr> Title = ''Tilt'', meta_Number = 43, Month = [7, 8], Year = 1991 \<rparr>,
       Pages = [\<lparr> File = ''p4.jpg'', Number = 1 \<rparr>],
       Folder = ''/in/A1'' \<rparr>"

text \<open>
  The folders of the issues 42 and 43 under \<open>/out\<close>, the disk of \<open>A1\<close> once the
  folders of issue 42 exist, the same disk once the first page is copied, and the
  error of opening the missing file.
\<close>

definition folder42 :: string where
  "folder42 = ''/out/test-Tilt/Num'' @ e_acute @ ''ro 42 | Juin 1991''"

definition folder43 :: string where
  "folder43 = ''/out/test-Tilt/Num'' @ e_acute @ ''ro 43 | Juillet - Ao'' @ u_circ @ ''t 1991''"

definition disk_A1_folders :: disk where
  "disk_A1_folders = disk_A1 \<lparr> dirs := [folder42, ''/out/test-Tilt''] @ dirs disk_A1 \<rparr>"

definition disk_A1_first :: disk where
  "disk_A1_first =
     disk_A1_folders
       \<lparr> files := [(folder42 @ ''/001.jpg'', [1, 2, 3]), (folder42 @ ''/001.jpg'', [])] @
                   files disk_A1 \<rparr>"

definition open_p9 :: go_error where
  "open_p9 =
     ErrorString (''unable to open source file /in/A1/p9.jpg: '' @
       ''open /in/A1/p9.jpg: no such file or directory'')"

section \<open>Month-name resolution\<close>

lemma toNames_foldl:
  "foldl toNames_step acc nums =
     acc @ map (\<lambda>n. months ! unat (n - 1)) (filter (\<lambda>n. 1 \<le> n \<and> n \<le> 12) nums)"
  by (induction nums arbitrary: acc) (simp_all add: toNames_step_def)

lemma months_nth:
  "months ! 0 = ''Janvier''"
  "months ! 5 = ''Juin''"
  "months ! 11 = ''D'' @ e_acute @ ''cembre''"
  by (simp_all add: months_def)

text \<open>
  C7. \<open>toNames\<close> maps the month numbers 1 to 12 to Janvier, Fevrier, Mars, Avril, Mai,
  Juin, Juillet, Aout, Septembre, Octobre, Novembre and Decembre (the accented
  letters as their two UTF-8 bytes), in input order, and drops every other number;
  joined with \<open>" - "\<close>, \<open>{6}\<close> gives \<open>Juin\<close>, \<open>{1, 12}\<close> gives \<open>Janvier - Decembre\<close>, and
  \<open>{0, 13}\<close> gives the empty list of names.
\<close>

theorem toNames_months:
  "toNames [1, 2, 3, 4, 5, 6, 7, 8, 9, 10, 11, 12] =
     [''Janvier'', ''F'' @ e_acute @ ''vrier'', ''Mars'', ''Avril'', ''Mai'', ''Juin'',
      ''Juillet'', ''Ao'' @ u_circ @ ''t'', ''Septembre'', ''Octobre'', ''Novembre'',
      ''D'' @ e_acute @ ''cembre'']
   \<and> toNames nums =
       map (\<lambda>n.
     [''Janvier'', ''F'' @ e_acute @ ''vrier'', ''Mars'', ''Avril'', ''Mai'', ''Juin'',
      ''Juillet'', ''Ao'' @ u_circ @ ''t'', ''Septembre'', ''Octobre'', ''Novembre'',
      ''D'' @ e_acute @ ''cembre''] ! unat (n - 1))
         (filter (\<lambda>n. 1 \<le> n \<and> n \<le> 12) nums)
   \<and> length (toNames nums) \<le> length nums
   \<and> strings_Join (toNames [6]) '' - '' = ''Juin''
   \<and> strings_Join (toNames [1, 12]) '' - '' = ''Janvier - D'' @ e_acute @ ''cembre''
   \<and> toNames [0, 13] = []
   \<and> strings_Join (toNames [0, 13]) '' - '' = []"
proof -
  have gen: "toNames nums =
      map (\<lambda>n. months ! unat (n - 1)) (filter (\<lambda>n. 1 \<le> n \<and> n \<le> 12) nums)"
    by (simp add: toNames_def toNames_foldl)
  have len: "length (toNames nums) \<le> length nums"
    by (simp add: gen)
  have year: "toNames [1, 2, 3, 4, 5, 6, 7, 8, 9, 10, 11, 12] = months"
    by (simp add: toNames_def toNames_step_def months_def)
  have six: "toNames [6] = [''Juin'']"
    by (simp add: toNames_def toNames_step_def months_nth)
  have two: "toNames [1, 12] = [''Janvier'', ''D'' @ e_acute @ ''cembre'']"
    by (simp add: toNames_def toNames_step_def months_nth)
  have none: "toNames [0, 13] = []"
    by (simp add: toNames_def toNames_step_def)
  show ?thesis
    using gen len year by (simp add: six two none months_def)
qed

section \<open>The image URL of a request\<close>

lemmas base64_eval = quantum_def sextet_def encodeStd_def
lemmas encoder_eval = encoder_Write_def NewEncoder_def encoder_groups_def imageURL_def EncodeToString_def

lemma Encode_groups:
  "length xs = 3 * n \<Longrightarrow> Encode (xs @ ys) = Encode xs @ Encode ys"
proof (induction n arbitrary: xs)
  case 0
  then show ?case by simp
next
  case (Suc n)
  then obtain a b c zs where xs: "xs = a # b # c # zs"
    by (cases xs; cases "tl xs"; cases "tl (tl xs)") auto
  with Suc.prems have "length zs = 3 * n" by simp
  with Suc.IH have "Encode (zs @ ys) = Encode zs @ Encode ys" by blast
  with xs show ?case by simp
qed

lemma split_groups:
  assumes "length b = 3 * j"
  shows "take (3 * (length (b @ r) div 3)) (b @ r) = b @ take (3 * (length r div 3)) r"
    and "drop (3 * (length (b @ r) div 3)) (b @ r) = drop (3 * (length r div 3)) r"
proof -
  have k: "3 * (length (b @ r) div 3) = length b + 3 * (length r div 3)"
    using assms by simp
  show "take (3 * (length (b @ r) div 3)) (b @ r) = b @ take (3 * (length r div 3)) r"
    unfolding k by simp
  show "drop (3 * (length (b @ r) div 3)) (b @ r) = drop (3 * (length r div 3)) r"
    unfolding k by simp
qed

lemma encoder_groups_after:
  assumes "length b = 3 * j"
  shows "encoder_groups (e \<lparr> out := out e @ Encode b, buf := [] \<rparr>) r =
    e \<lparr> out := out e @ Encode (take (3 * (length (b @ r) div 3)) (b @ r)),
        buf := drop (3 * (length (b @ r) div 3)) (b @ r) \<rparr>"
proof -
  have "Encode (b @ take (3 * (length r div 3)) r) = Encode b @ Encode (take (3 * (length r div 3)) r)"
    using assms by (rule Encode_groups)
  then show ?thesis
    unfolding split_groups [OF assms]
    by (simp add: encoder_groups_def Let_def)
qed

lemma encoder_Write_groups:
  assumes "length (buf e) < 3"
  shows "encoder_Write e p =
    e \<lparr> out := out e @ Encode (take (3 * (length (buf e @ p) div 3)) (buf e @ p)),
        buf := drop (3 * (length (buf e @ p) div 3)) (buf e @ p) \<rparr>"
proof (cases "buf e = []")
  case True
  then show ?thesis by (simp add: encoder_Write_def encoder_groups_def Let_def)
next
  case False
  define i where "i = min (length p) (3 - length (buf e))"
  define b where "b = buf e @ take i p"
  define r where "r = drop i p"
  have W: "encoder_Write e p =
      (if length b < 3 then e \<lparr> buf := b \<rparr>
       else encoder_groups (e \<lparr> out := out e @ Encode b, buf := [] \<rparr>) r)"
    using False by (simp add: encoder_Write_def Let_def i_def b_def r_def)
  have eq: "buf e @ p = b @ r" by (simp add: b_def r_def)
  show ?thesis
  proof (cases "length b < 3")
    case True
    with assms have "i = length p" by (auto simp: b_def i_def min_def split: if_splits)
    then have b: "b = buf e @ p" by (simp add: b_def)
    with True have "length (buf e @ p) div 3 = 0" by simp
    then show ?thesis unfolding W using True b by simp
  next
    case F3: False
    with assms have lb: "length b = 3 * 1" by (auto simp: b_def i_def min_def split: if_splits)
    have "encoder_Write e p =
        encoder_groups (e \<lparr> out := out e @ Encode b, buf := [] \<rparr>) r"
      unfolding W using F3 by simp
    also have "\<dots> =
        e \<lparr> out := out e @ Encode (take (3 * (length (b @ r) div 3)) (b @ r)),
            buf := drop (3 * (length (b @ r) div 3)) (b @ r) \<rparr>"
      by (rule encoder_groups_after [OF lb])
    finally show ?thesis unfolding eq .
  qed
qed

lemma foldl_encoder_Write:
  "length (buf e) < 3 \<Longrightarrow>
   foldl encoder_Write e chunks =
     e \<lparr> out := out e @ Encode (take (3 * (length (buf e @ concat chunks) div 3)) (buf e @ concat chunks)),
         buf := drop (3 * (length (buf e @ concat chunks) div 3)) (buf e @ concat chunks) \<rparr>"
proof (induction chunks arbitrary: e)
  case Nil
  then have "length (buf e) div 3 = 0" by simp
  then show ?case by simp
next
  case (Cons p chunks)
  define xs where "xs = buf e @ p"
  define k where "k = 3 * (length xs div 3)"
  define b where "b = take k xs"
  define r where "r = drop k xs @ concat chunks"
  define e1 where "e1 = encoder_Write e p"
  have e1: "e1 = e \<lparr> out := out e @ Encode b, buf := drop k xs \<rparr>"
    unfolding e1_def b_def k_def xs_def using Cons.prems by (rule encoder_Write_groups)
  have "length (drop k xs) = length xs mod 3"
    by (simp add: k_def minus_mult_div_eq_mod)
  then have short: "length (buf e1) < 3" by (simp add: e1)
  have lb: "length b = 3 * (length xs div 3)"
    by (simp add: b_def k_def)
  have "b @ drop k xs = xs"
    unfolding b_def by (rule append_take_drop_id)
  then have "b @ r = xs @ concat chunks"
    by (simp add: r_def flip: append_assoc)
  then have all: "buf e @ concat (p # chunks) = b @ r"
    by (simp add: xs_def)
  have bufr: "buf e1 @ concat chunks = r" by (simp add: e1 r_def)
  have "foldl encoder_Write e (p # chunks) = foldl encoder_Write e1 chunks"
    by (simp add: e1_def)
  also have "\<dots> = e1 \<lparr> out := out e1 @ Encode (take (3 * (length r div 3)) r),
         buf := drop (3 * (length r div 3)) r \<rparr>"
    using Cons.IH [OF short] unfolding bufr .
  also have "\<dots> = e \<lparr> out := out e @ Encode (b @ take (3 * (length r div 3)) r),
         buf := drop (3 * (length r div 3)) r \<rparr>"
    by (simp add: e1 Encode_groups [OF lb])
  also have "\<dots> = e \<lparr> out := out e @ Encode (take (3 * (length (b @ r) div 3)) (b @ r)),
         buf := drop (3 * (length (b @ r) div 3)) (b @ r) \<rparr>"
    unfolding split_groups [OF lb] ..
  finally show ?case unfolding all .
qed

lemma imageURL_groups:
  "imageURL chunks =
     ''data:image/jpeg;base64,'' @
       Encode (take (3 * (length (concat chunks) div 3)) (concat chunks))"
  using foldl_encoder_Write [of "NewEncoder ''data:image/jpeg;base64,''" chunks]
  by (simp add: imageURL_def NewEncoder_def)

lemma imageURL_FFD8FFE0:
  "imageURL [[0xFF, 0xD8, 0xFF, 0xE0]] = ''data:image/jpeg;base64,/9j/''"
  by (simp add: encoder_eval base64_eval)

lemma EncodeToString_FFD8FFE0:
  "EncodeToString [0xFF, 0xD8, 0xFF, 0xE0] = ''/9j/4A==''"
  by (simp add: encoder_eval base64_eval)

text \<open>
  C8. The image URL of the request is the prefix \<open>data:image/jpeg;base64,\<close> followed
  by the encoding of the image. At an image of four bytes (the first bytes of a JPEG
  file) the code sends the encoding of the first three bytes only: the encoder still
  holds the fourth byte, because it is never closed. The inference service of the
  example answers the request that carries the truncated URL.
\<close>

theorem SendRequestWithImage_four_bytes:
  "imageURL [[0xFF, 0xD8, 0xFF, 0xE0]] = ''data:image/jpeg;base64,/9j/''
   \<and> ''data:image/jpeg;base64,'' @ EncodeToString [0xFF, 0xD8, 0xFF, 0xE0]
       = ''data:image/jpeg;base64,/9j/4A==''
   \<and> SendRequestWithImage
        (example_world (no_tables \<lparr> answers :=
           [((''describe'', ''data:image/jpeg;base64,/9j/4A==''), ''whole image''),
            ((''describe'', ''data:image/jpeg;base64,/9j/''), ''truncated image'')] \<rparr>))
        ''describe'' ''/in/cover.jpg''
        \<lparr> dirs = [''/in''], files = [(''/in/cover.jpg'', [0xFF, 0xD8, 0xFF, 0xE0])] \<rparr>
     = (Inr ''truncated image'',
        \<lparr> dirs = [''/in''], files = [(''/in/cover.jpg'', [0xFF, 0xD8, 0xFF, 0xE0])] \<rparr>)"
  by (simp add: imageURL_FFD8FFE0 EncodeToString_FFD8FFE0 SendRequestWithImage_def
      example_world_def no_tables_def)

section \<open>Runs of the Analyzer in the example world\<close>

lemmas path_eval = filepath_Join_def filepath_Clean_def IsPathSeparator_def clean_step_def
  render_path_def

lemma A1_paths:
  "filepath_Join [''/in/A1'', ''p1.jpg''] = ''/in/A1/p1.jpg''"
  "filepath_Join [''/in/A1'', ''p2.jpg''] = ''/in/A1/p2.jpg''"
  "filepath_Join [''/in/A1'', ''p3.jpg''] = ''/in/A1/p3.jpg''"
  "filepath_Join [''/in/A1'', ''p4.jpg''] = ''/in/A1/p4.jpg''"
  by (simp_all add: path_eval)

lemma A1_urls:
  "imageURL [[1, 2, 3]] = url1"
  "imageURL [[4, 5, 6]] = url2"
  "imageURL [[7, 8, 9]] = url3"
  "imageURL [[10, 11, 12]] = url4"
  by (simp_all add: encoder_eval base64_eval url1_def url2_def url3_def url4_def)

lemma example_world_sel:
  "os_Stat (example_world t) path d =
     (if present path d then None else Some (PathError ''stat'' path ENOENT), d)"
  "os_Open (example_world t) path d =
     (if present path d then None else Some (PathError ''open'' path ENOENT), d)"
  "file_Read (example_world t) path d =
     (case map_of (files d) path of
        None \<Rightarrow> (([], Some (PathError ''read'' path EISDIR)), d)
      | Some bytes \<Rightarrow> (([bytes], None), d))"
  "Responses_New (example_world t) prompt url d =
     (case map_of (answers t) (prompt, url) of
        None \<Rightarrow> (Inl (ErrorString ''503 Service Unavailable''), d)
      | Some text \<Rightarrow> (Inr text, d))"
  "Unmarshal_TableContent (example_world t) data v =
     (case map_of (toc_documents t) data of
        None \<Rightarrow> (Some invalid_json, v)
      | Some doc \<Rightarrow> (None, decode_into doc v))"
  "Unmarshal_MagazineMetadata (example_world t) data =
     (case map_of (metadata_documents t) data of
        None \<Rightarrow> Inl invalid_json
      | Some metadata \<Rightarrow> Inr metadata)"
  "Unmarshal_Game (example_world t) data =
     (case map_of (game_documents t) data of
        None \<Rightarrow> Inl invalid_json
      | Some game \<Rightarrow> Inr game)"
  by (simp_all add: example_world_def)

lemma example_request:
  "map_of (files d) path = Some bytes \<Longrightarrow>
   SendRequestWithImage (example_world t) prompt path d =
     (case map_of (answers t) (prompt, imageURL [bytes]) of
        None \<Rightarrow> (Inl (ErrorString ''unable to process the prompt: 503 Service Unavailable''), d)
      | Some text \<Rightarrow> (Inr text, d))"
  by (simp add: SendRequestWithImage_def example_world_sel split: option.split)

lemma urls_distinct:
  "url1 \<noteq> url2" "url1 \<noteq> url3" "url1 \<noteq> url4" "url2 \<noteq> url3" "url2 \<noteq> url4" "url3 \<noteq> url4"
  "url2 \<noteq> url1" "url3 \<noteq> url1" "url4 \<noteq> url1" "url3 \<noteq> url2" "url4 \<noteq> url2" "url4 \<noteq> url3"
  by (simp_all add: url1_def url2_def url3_def url4_def)

lemma stale_request2:
  "SendRequestWithImage (example_world stale_tables) TableOfContentAssistantPrompt
     ''/in/A1/p2.jpg'' disk_A1 = (Inr response_partial, disk_A1)"
  by (simp add: example_request [where bytes = "[4, 5, 6]"] disk_A1_def A1_urls stale_tables_def
      no_tables_def)

lemma stale_request3:
  "SendRequestWithImage (example_world stale_tables) TableOfContentAssistantPrompt
     ''/in/A1/p3.jpg'' disk_A1 = (Inr response_error_only, disk_A1)"
  by (simp add: example_request [where bytes = "[7, 8, 9]"] disk_A1_def A1_urls stale_tables_def
      no_tables_def urls_distinct)

lemma disk_A1_present:
  "present ''/in/A1/p1.jpg'' disk_A1" "present ''/in/A1/p2.jpg'' disk_A1"
  "present ''/in/A1/p3.jpg'' disk_A1" "present ''/in/A1/p4.jpg'' disk_A1"
  by (simp_all add: present_def disk_A1_def)

lemma stale_decode:
  "Unmarshal_TableContent (example_world stale_tables) response_partial v =
     (None, \<lparr> toc_Error = ''partial page'',
              Entries = [\<lparr> entry_Title = ''Tests'', PageNumbers = [3] \<rparr>] \<rparr>)"
  "Unmarshal_TableContent (example_world stale_tables) response_error_only v =
     (None, \<lparr> toc_Error = [], Entries = Entries v \<rparr>)"
  by (simp_all add: example_world_sel stale_tables_def no_tables_def decode_into_def
      response_partial_def response_error_only_def)

lemma responses_nonempty:
  "response_partial \<noteq> []" "response_error_only \<noteq> []"
  by (simp_all add: response_partial_def response_error_only_def)

text \<open>
  C10. The variable \<open>tableContent\<close> is shared by all iterations of the first loop and
  never reset. With the answers of \<open>stale_tables\<close> the loop is left at the third page
  with a table of contents whose entries were decoded from the second page and
  whose empty error comes from the third: decoded on its own the second page has a
  non-empty error, and the answer of the third page has no key \<open>entries\<close> and decodes
  on its own to no entries at all.
\<close>

theorem candidates_keep_earlier_entries:
  "candidates (example_world stale_tables) (pages_Folder A1) (tl (pages_Pages A1))
      \<lparr> toc_Error = [], Entries = [] \<rparr> (start disk_A1)
     = (Some \<lparr> toc_Error = [], Entries = [\<lparr> entry_Title = ''Tests'', PageNumbers = [3] \<rparr>] \<rparr>,
        start disk_A1)
   \<and> Unmarshal_TableContent (example_world stale_tables) response_partial
        \<lparr> toc_Error = [], Entries = [] \<rparr>
     = (None, \<lparr> toc_Error = ''partial page'',
                Entries = [\<lparr> entry_Title = ''Tests'', PageNumbers = [3] \<rparr>] \<rparr>)
   \<and> Unmarshal_TableContent (example_world stale_tables) response_error_only
        \<lparr> toc_Error = [], Entries = [] \<rparr>
     = (None, \<lparr> toc_Error = [], Entries = [] \<rparr>)
   \<and> map_of (toc_documents stale_tables) response_error_only = Some (Some [], None)"
proof -
  have run: "candidates (example_world stale_tables) (pages_Folder A1) (tl (pages_Pages A1))
      \<lparr> toc_Error = [], Entries = [] \<rparr> (start disk_A1)
     = (Some \<lparr> toc_Error = [], Entries = [\<lparr> entry_Title = ''Tests'', PageNumbers = [3] \<rparr>] \<rparr>,
        start disk_A1)"
    by (simp add: A1_def A1_paths example_world_sel(1,2) disk_A1_present stale_request2
        stale_request3 stale_decode responses_nonempty start_def)
  have doc: "map_of (toc_documents stale_tables) response_error_only = Some (Some [], None)"
    by (simp add: stale_tables_def no_tables_def response_partial_def response_error_only_def)
  show ?thesis
    using run doc by (simp add: stale_decode)
qed

lemmas table_defs = no_tables_def stale_tables_def skipping_tables_def page7_tables_def
  empty_answer_tables_def malformed_answer_tables_def unknown_cover_tables_def tilt_tables_def

lemmas response_defs = response_partial_def response_error_only_def response_no_summary_def
  response_entries_only_def response_complete_def response_page7_def response_page4_def
  response_tilt_def

lemma A1_files:
  "map_of (files disk_A1) ''/in/A1/p1.jpg'' = Some [1, 2, 3]"
  "map_of (files disk_A1) ''/in/A1/p2.jpg'' = Some [4, 5, 6]"
  "map_of (files disk_A1) ''/in/A1/p3.jpg'' = Some [7, 8, 9]"
  "map_of (files disk_A1) ''/in/A1/p4.jpg'' = Some [10, 11, 12]"
  by (simp_all add: disk_A1_def)

lemma A1_requests:
  "SendRequestWithImage (example_world t) prompt ''/in/A1/p1.jpg'' disk_A1 =
     (case map_of (answers t) (prompt, url1) of
        None \<Rightarrow> (Inl (ErrorString ''unable to process the prompt: 503 Service Unavailable''), disk_A1)
      | Some text \<Rightarrow> (Inr text, disk_A1))"
  "SendRequestWithImage (example_world t) prompt ''/in/A1/p2.jpg'' disk_A1 =
     (case map_of (answers t) (prompt, url2) of
        None \<Rightarrow> (Inl (ErrorString ''unable to process the prompt: 503 Service Unavailable''), disk_A1)
      | Some text \<Rightarrow> (Inr text, disk_A1))"
  "SendRequestWithImage (example_world t) prompt ''/in/A1/p3.jpg'' disk_A1 =
     (case map_of (answers t) (prompt, url3) of
        None \<Rightarrow> (Inl (ErrorString ''unable to process the prompt: 503 Service Unavailable''), disk_A1)
      | Some text \<Rightarrow> (Inr text, disk_A1))"
  "SendRequestWithImage (example_world t) prompt ''/in/A1/p4.jpg'' disk_A1 =
     (case map_of (answers t) (prompt, url4) of
        None \<Rightarrow> (Inl (ErrorString ''unable to process the prompt: 503 Service Unavailable''), disk_A1)
      | Some text \<Rightarrow> (Inr text, disk_A1))"
  by (simp_all add: example_request A1_files A1_urls)

lemma skipping_requests:
  "SendRequestWithImage (example_world skipping_tables) TableOfContentAssistantPrompt
     ''/in/A1/p2.jpg'' disk_A1 = (Inr response_no_summary, disk_A1)"
  "SendRequestWithImage (example_world skipping_tables) TableOfContentAssistantPrompt
     ''/in/A1/p3.jpg'' disk_A1 = (Inr response_entries_only, disk_A1)"
  "SendRequestWithImage (example_world skipping_tables) TableOfContentAssistantPrompt
     ''/in/A1/p4.jpg'' disk_A1 = (Inr response_complete, disk_A1)"
  by (simp_all add: A1_requests table_defs urls_distinct)

lemma skipping_decode:
  "Unmarshal_TableContent (example_world skipping_tables) response_no_summary v =
     (None, \<lparr> toc_Error = ''no summary found'', Entries = [] \<rparr>)"
  "Unmarshal_TableContent (example_world skipping_tables) response_entries_only v =
     (None, \<lparr> toc_Error = toc_Error v,
              Entries = [\<lparr> entry_Title = ''Tests'', PageNumbers = [2] \<rparr>] \<rparr>)"
  "Unmarshal_TableContent (example_world skipping_tables) response_complete v =
     (None, \<lparr> toc_Error = [],
              Entries = [\<lparr> entry_Title = ''Selection'', PageNumbers = [3] \<rparr>] \<rparr>)"
  by (simp_all add: example_world_sel table_defs decode_into_def response_defs)

lemma responses_not_empty:
  "response_partial \<noteq> []" "response_error_only \<noteq> []" "response_no_summary \<noteq> []"
  "response_entries_only \<noteq> []" "response_complete \<noteq> []" "response_page7 \<noteq> []"
  "response_page4 \<noteq> []" "response_tilt \<noteq> []"
  by (simp_all add: response_defs)

text \<open>
  C6. The first loop visits the pages after the cover in order, and goes on after an
  answer that does not decode. It does not stop at the first page whose answer
  decodes to an empty error and some entries: with the answers of \<open>skipping_tables\<close>
  the answer of the third page decodes, on its own, to an empty error and one entry,
  but the loop goes on to the fourth page, because \<open>tableContent\<close> still holds the
  error of the second page.
\<close>

theorem candidates_pass_entries_without_error_key:
  "candidates (example_world skipping_tables) (pages_Folder A1) (tl (pages_Pages A1))
      \<lparr> toc_Error = [], Entries = [] \<rparr> (start disk_A1)
     = (Some \<lparr> toc_Error = [],
               Entries = [\<lparr> entry_Title = ''Selection'', PageNumbers = [3] \<rparr>] \<rparr>,
        start disk_A1)
   \<and> Unmarshal_TableContent (example_world skipping_tables) response_entries_only
        \<lparr> toc_Error = [], Entries = [] \<rparr>
     = (None, \<lparr> toc_Error = [],
                Entries = [\<lparr> entry_Title = ''Tests'', PageNumbers = [2] \<rparr>] \<rparr>)"
  by (simp add: A1_def A1_paths example_world_sel(1,2) disk_A1_present skipping_requests
      skipping_decode responses_not_empty start_def)

lemma page7_request:
  "SendRequestWithImage (example_world page7_tables) TableOfContentAssistantPrompt
     ''/in/A1/p2.jpg'' disk_A1 = (Inr response_page7, disk_A1)"
  by (simp add: A1_requests table_defs)

lemma page7_decode:
  "Unmarshal_TableContent (example_world page7_tables) response_page7 v =
     (None, \<lparr> toc_Error = [], Entries = [\<lparr> entry_Title = ''Tests'', PageNumbers = [7] \<rparr>] \<rparr>)"
  by (simp add: example_world_sel table_defs decode_into_def response_defs)

lemma sys_update_same: "sys s = w \<Longrightarrow> s \<lparr> sys := w \<rparr> = s"
  by simp

lemma page7_candidates:
  "sys s = disk_A1 \<Longrightarrow>
   candidates (example_world page7_tables) ''/in/A1'' (tl (pages_Pages A1))
      \<lparr> toc_Error = [], Entries = [] \<rparr> s
     = (Some \<lparr> toc_Error = [], Entries = [\<lparr> entry_Title = ''Tests'', PageNumbers = [7] \<rparr>] \<rparr>, s)"
  by (simp add: A1_def A1_paths example_world_sel(1,2) disk_A1_present page7_request
      page7_decode responses_not_empty)

lemma page7_index:
  "slices_IndexFunc (pages_Pages A1) (\<lambda>p. Number p = 7) = - 1"
  "index (pages_Pages A1) (- 1) = Inl (IndexOutOfRange (- 1) 4)"
  by (simp_all add: slices_IndexFunc_def index_def A1_def)

lemma A1_pages:
  "pages_Pages A1 = \<lparr> File = ''p1.jpg'', Number = 1 \<rparr> # tl (pages_Pages A1)"
  "pages_Folder A1 = ''/in/A1''"
  by (simp_all add: A1_def)

lemma page7_panic:
  assumes "sys s = disk_A1"
  shows "analyzeTableOfContent (example_world page7_tables) A1 s
     = (Panicked (IndexOutOfRange (- 1) 4), s)"
  unfolding analyzeTableOfContent_def
  by (subst A1_pages(1)) (simp add: A1_pages(2) page7_candidates [OF assms] page7_index)

lemma example_request_sys:
  "snd (SendRequestWithImage (example_world t) prompt path d) = d"
  by (simp add: SendRequestWithImage_def example_world_sel split: option.split prod.split)

lemma example_analyzePages_sys:
  "sys (analyzePages (example_world t) magazinePages s) = sys s"
proof (cases "pages_Pages magazinePages")
  case Nil
  then show ?thesis by (simp add: analyzePages_def Log_def)
next
  case (Cons cover rest)
  obtain r where r: "SendRequestWithImage (example_world t) CoverPageAssistantPrompt
      (filepath_Join [pages_Folder magazinePages, File cover]) (sys s) = (r, sys s)"
    using example_request_sys [of t CoverPageAssistantPrompt
        "filepath_Join [pages_Folder magazinePages, File cover]" "sys s"]
    by (metis prod.collapse)
  show ?thesis
    using Cons r
    by (simp add: analyzePages_def Let_def example_world_sel(1,2) Log_def Send_def
        split: sum.split)
qed

text \<open>
  C3. Resolving a page number that no page of the page set has: \<open>slices.IndexFunc\<close>
  yields \<open>-1\<close> and the slice is indexed with it, so \<open>analyzeTableOfContent\<close> panics
  and \<open>monitor\<close> with it, whatever page sets follow.
\<close>

theorem analyzeTableOfContent_unknown_page_number:
  "analyzeTableOfContent (example_world page7_tables) A1 (start disk_A1)
     = (Panicked (IndexOutOfRange (- 1) 4), start disk_A1)
   \<and> fst (analyzer_monitor (example_world page7_tables) (A1 # others) (start disk_A1))
     = Panicked (IndexOutOfRange (- 1) 4)"
proof -
  have "sys (start disk_A1) = disk_A1" by (simp add: start_def)
  then have first: "analyzeTableOfContent (example_world page7_tables) A1 (start disk_A1)
     = (Panicked (IndexOutOfRange (- 1) 4), start disk_A1)"
    by (rule page7_panic)
  have "sys (analyzePages (example_world page7_tables) A1 (start disk_A1)) = disk_A1"
    by (simp add: example_analyzePages_sys start_def)
  then have "analyzeTableOfContent (example_world page7_tables) A1
       (analyzePages (example_world page7_tables) A1 (start disk_A1))
     = (Panicked (IndexOutOfRange (- 1) 4),
        analyzePages (example_world page7_tables) A1 (start disk_A1))"
    by (rule page7_panic)
  then have "fst (analyzer_monitor (example_world page7_tables) (A1 # others) (start disk_A1))
     = Panicked (IndexOutOfRange (- 1) 4)"
    by simp
  with first show ?thesis by simp
qed

section \<open>What the Analyzer sends and logs\<close>

lemma sent_Log [simp]: "sent (Log severity text s) = sent s"
  by (simp add: Log_def)

lemma candidates_sent:
  "sent (snd (candidates W folder pages tableContent s)) = sent s"
proof (induction pages arbitrary: tableContent s)
  case Nil
  then show ?case by simp
next
  case (Cons page rest)
  show ?case
    by (simp add: Let_def Cons.IH split: prod.split option.split sum.split)
qed

lemma pageNumbers_sent:
  "sent (snd (snd (pageNumbers W magazinePages numbers gamesTested s))) = sent s"
proof (induction numbers arbitrary: gamesTested s)
  case Nil
  then show ?case by simp
next
  case (Cons pageNumber rest)
  show ?case
    by (simp add: Let_def Cons.IH split: prod.split option.split sum.split)
qed

lemma entries_sent:
  "sent (snd (snd (entries W magazinePages es gamesTested s))) = sent s"
proof (induction es arbitrary: gamesTested s)
  case Nil
  then show ?case by simp
next
  case (Cons entry rest)
  obtain stop games s1 where p: "pageNumbers W magazinePages (PageNumbers entry) gamesTested s
      = (stop, games, s1)"
    by (metis prod.collapse)
  with pageNumbers_sent [of W magazinePages "PageNumbers entry" gamesTested s]
  have "sent s1 = sent s" by simp
  with p Cons.IH [of games s1] show ?case
    by (cases stop) simp_all
qed

lemma analyzeTableOfContent_sent:
  "sent (snd (analyzeTableOfContent W magazinePages s)) = sent s"
proof (cases "pages_Pages magazinePages")
  case Nil
  then show ?thesis by (simp add: analyzeTableOfContent_def)
next
  case (Cons cover after)
  obtain found s1 where c: "candidates W (pages_Folder magazinePages) after
      \<lparr> toc_Error = [], Entries = [] \<rparr> s = (found, s1)"
    by (metis prod.collapse)
  with candidates_sent [of W "pages_Folder magazinePages" after "\<lparr> toc_Error = [], Entries = [] \<rparr>" s]
  have s1: "sent s1 = sent s" by simp
  show ?thesis
  proof (cases found)
    case None
    with Cons c s1 show ?thesis by (simp add: analyzeTableOfContent_def)
  next
    case (Some tableContent)
    obtain stop games s2 where e: "entries W magazinePages (Entries tableContent) [] s1
        = (stop, games, s2)"
      by (metis prod.collapse)
    with entries_sent [of W magazinePages "Entries tableContent" "[]" s1] s1
    have "sent s2 = sent s" by simp
    with Cons c Some e show ?thesis
      by (cases stop) (simp_all add: analyzeTableOfContent_def)
  qed
qed

lemma analyzePages_sent:
  "sent (analyzePages W magazinePages s) = sent s
   \<or> (\<exists>metadata. sent (analyzePages W magazinePages s) =
         sent s @ [\<lparr> Metadata = metadata, Pages = pages_Pages magazinePages,
                     Folder = pages_Folder magazinePages \<rparr>])"
  by (simp add: analyzePages_def Let_def Send_def split: list.split prod.split option.split sum.split)


lemma sys_Log [simp]: "sys (Log severity text s) = sys s"
  by (simp add: Log_def)

lemma auditLog_Log [simp]:
  "auditLog (Log severity text s) = auditLog s @ [\<lparr> Severity = severity, Text = text \<rparr>]"
  by (simp add: Log_def)

lemma auditLog_sys_update [simp]: "auditLog (s \<lparr> sys := w \<rparr>) = auditLog s"
  by simp

text \<open>
  C5. For a page set, \<open>analyzePages\<close> sends at most one magazine, and the analysis of
  the table of contents that follows sends none; a magazine that is sent carries the
  pages of the page set, as they are, and its folder.
\<close>

theorem analyzer_sends_at_most_one:
  "\<exists>new. sent (analyzePages W magazinePages s) = sent s @ new
      \<and> sent (snd (analyzeTableOfContent W magazinePages (analyzePages W magazinePages s)))
          = sent s @ new
      \<and> length new \<le> 1
      \<and> (\<forall>magazine \<in> set new.
            Pages magazine = pages_Pages magazinePages
            \<and> Folder magazine = pages_Folder magazinePages)"
proof -
  consider "sent (analyzePages W magazinePages s) = sent s"
    | metadata where "sent (analyzePages W magazinePages s) =
         sent s @ [\<lparr> Metadata = metadata, Pages = pages_Pages magazinePages,
                     Folder = pages_Folder magazinePages \<rparr>]"
    using analyzePages_sent [of W magazinePages s] by blast
  then show ?thesis
  proof cases
    case 1
    then show ?thesis
      by (intro exI [of _ "[]"]) (simp add: analyzeTableOfContent_sent)
  next
    case 2
    then show ?thesis
      by (intro exI [of _ "[\<lparr> Metadata = metadata, Pages = pages_Pages magazinePages,
                     Folder = pages_Folder magazinePages \<rparr>]"])
         (simp add: analyzeTableOfContent_sent)
  qed
qed

lemma tilt_cover:
  "SendRequestWithImage (example_world tilt_tables) CoverPageAssistantPrompt
     ''/in/A1/p1.jpg'' disk_A1 = (Inr response_tilt, disk_A1)"
  by (simp add: A1_requests table_defs)

lemma tilt_decode:
  "Unmarshal_MagazineMetadata (example_world tilt_tables) response_tilt = Inr tilt"
  by (simp add: example_world_sel table_defs)

lemma response_tilt_known: "response_tilt \<noteq> ''Unknown''"
  by (simp add: response_defs)

lemma tilt_analyzePages:
  "sent (analyzePages (example_world tilt_tables) A1 (start disk_A1)) =
     [\<lparr> Metadata = tilt, Pages = pages_Pages A1, Folder = ''/in/A1'' \<rparr>]"
  unfolding analyzePages_def
  by (subst A1_pages(1))
     (simp add: A1_pages(2) A1_paths example_world_sel(1,2) disk_A1_present tilt_cover
        tilt_decode response_tilt_known responses_not_empty start_def Send_def Log_def)

theorem analyzer_sends_at_most_one_witness:
  "sent (snd (analyzeTableOfContent (example_world tilt_tables) A1
            (analyzePages (example_world tilt_tables) A1 (start disk_A1))))
     = [\<lparr> Metadata = tilt, Pages = pages_Pages A1, Folder = ''/in/A1'' \<rparr>]
   \<and> Pages (hd (sent (analyzePages (example_world tilt_tables) A1 (start disk_A1))))
     = [\<lparr> File = ''p1.jpg'', Number = 1 \<rparr>, \<lparr> File = ''p2.jpg'', Number = 2 \<rparr>,
        \<lparr> File = ''p3.jpg'', Number = 3 \<rparr>, \<lparr> File = ''p4.jpg'', Number = 4 \<rparr>]"
proof -
  obtain new where
    one: "sent (analyzePages (example_world tilt_tables) A1 (start disk_A1))
            = sent (start disk_A1) @ new"
    and two: "sent (snd (analyzeTableOfContent (example_world tilt_tables) A1
                (analyzePages (example_world tilt_tables) A1 (start disk_A1))))
            = sent (start disk_A1) @ new"
    using analyzer_sends_at_most_one [of "example_world tilt_tables" A1 "start disk_A1"]
    by blast
  from one two have "sent (snd (analyzeTableOfContent (example_world tilt_tables) A1
                (analyzePages (example_world tilt_tables) A1 (start disk_A1))))
      = sent (analyzePages (example_world tilt_tables) A1 (start disk_A1))"
    by simp
  then show ?thesis
    by (simp add: tilt_analyzePages) (simp add: A1_def)
qed

text \<open>
  C4. When the inference service answers the cover request with the empty string or
  with \<open>Unknown\<close>, \<open>analyzePages\<close> sends nothing and appends an event of severity
  \<open>Error\<close> to the audit log; \<open>monitor\<close> goes on with the table of contents of the
  page set and, when that returns, with the page sets that follow.
\<close>

theorem analyzePages_unknown_cover:
  assumes "pages_Pages magazinePages = cover # rest"
    and "os_Stat W (filepath_Join [pages_Folder magazinePages, File cover]) (sys s) = (None, w1)"
    and "os_Open W (filepath_Join [pages_Folder magazinePages, File cover]) w1 = (None, w2)"
    and "SendRequestWithImage W CoverPageAssistantPrompt
           (filepath_Join [pages_Folder magazinePages, File cover]) w2 = (Inr response, w3)"
    and "response = [] \<or> response = ''Unknown''"
  shows "sent (analyzePages W magazinePages s) = sent s
    \<and> auditLog (analyzePages W magazinePages s) =
        auditLog s @
          [\<lparr> Severity = Information,
             Text = ''Analyzing cover file '' @ quoted (File cover) @ newline \<rparr>,
           \<lparr> Severity = Error,
             Text = ''Unable to retieve the metadata of the cover file '' @
               quoted (filepath_Join [pages_Folder magazinePages, File cover]) \<rparr>]
    \<and> sys (analyzePages W magazinePages s) = w3
    \<and> (fst (analyzeTableOfContent W magazinePages (analyzePages W magazinePages s)) = Returned
        \<longrightarrow> analyzer_monitor W (magazinePages # others) s =
              analyzer_monitor W others
                (snd (analyzeTableOfContent W magazinePages (analyzePages W magazinePages s))))"
proof -
  have run: "analyzePages W magazinePages s =
      Log Error (''Unable to retieve the metadata of the cover file '' @
          quoted (filepath_Join [pages_Folder magazinePages, File cover]))
        ((Log Information (''Analyzing cover file '' @ quoted (File cover) @ newline) s)
           \<lparr> sys := w3 \<rparr>)"
    using assms by (auto simp add: analyzePages_def Let_def)
  have go_on: "fst (analyzeTableOfContent W magazinePages (analyzePages W magazinePages s)) = Returned
        \<longrightarrow> analyzer_monitor W (magazinePages # others) s =
              analyzer_monitor W others
                (snd (analyzeTableOfContent W magazinePages (analyzePages W magazinePages s)))"
    by (cases "analyzeTableOfContent W magazinePages (analyzePages W magazinePages s)") auto
  show ?thesis
    unfolding run using go_on unfolding run by simp
qed

lemma unknown_cover:
  "SendRequestWithImage (example_world unknown_cover_tables) CoverPageAssistantPrompt
     ''/in/A1/p1.jpg'' disk_A1 = (Inr ''Unknown'', disk_A1)"
  by (simp add: A1_requests table_defs)

theorem analyzePages_unknown_cover_witness:
  "sent (analyzePages (example_world unknown_cover_tables) A1 (start disk_A1)) = []
   \<and> auditLog (analyzePages (example_world unknown_cover_tables) A1 (start disk_A1)) =
       [\<lparr> Severity = Information,
          Text = ''Analyzing cover file '' @ quoted ''p1.jpg'' @ newline \<rparr>,
        \<lparr> Severity = Error,
          Text = ''Unable to retieve the metadata of the cover file '' @
            quoted ''/in/A1/p1.jpg'' \<rparr>]"
proof -
  have stat: "os_Stat (example_world unknown_cover_tables)
      (filepath_Join [pages_Folder A1, File \<lparr> File = ''p1.jpg'', Number = 1 \<rparr>])
      (sys (start disk_A1)) = (None, disk_A1)"
    by (simp add: A1_pages A1_paths example_world_sel disk_A1_present start_def)
  have opn: "os_Open (example_world unknown_cover_tables)
      (filepath_Join [pages_Folder A1, File \<lparr> File = ''p1.jpg'', Number = 1 \<rparr>])
      disk_A1 = (None, disk_A1)"
    by (simp add: A1_pages A1_paths example_world_sel disk_A1_present)
  have req: "SendRequestWithImage (example_world unknown_cover_tables) CoverPageAssistantPrompt
      (filepath_Join [pages_Folder A1, File \<lparr> File = ''p1.jpg'', Number = 1 \<rparr>])
      disk_A1 = (Inr ''Unknown'', disk_A1)"
    by (simp add: A1_pages A1_paths unknown_cover)
  from analyzePages_unknown_cover [OF A1_pages(1) stat opn req, of others]
  show ?thesis
    by (simp add: A1_pages A1_paths start_def)
qed


text \<open>
  C9. For a candidate page that can be opened and whose request succeeds: an empty
  answer makes \<open>analyzeTableOfContent\<close> return at once, with an \<open>Error\<close> event, and
  the pages that follow are not tried; an answer that does not decode is logged and
  the loop goes on with the pages that follow.
\<close>

theorem candidates_empty_answer:
  assumes "os_Stat W (filepath_Join [folder, File page]) (sys s) = (None, w1)"
    and "os_Open W (filepath_Join [folder, File page]) w1 = (None, w2)"
    and "SendRequestWithImage W TableOfContentAssistantPrompt
           (filepath_Join [folder, File page]) w2 = (Inr response, w3)"
  shows "(response = [] \<longrightarrow>
            candidates W folder (page # rest) tableContent s =
              (None,
               Log Error (''Unable to retieve the metadata of the file '' @
                   quoted (filepath_Join [folder, File page]))
                 (s \<lparr> sys := w3 \<rparr>))
            \<and> (pages_Folder magazinePages = folder
                 \<and> pages_Pages magazinePages = cover # page # rest
                 \<and> tableContent = \<lparr> toc_Error = [], Entries = [] \<rparr>
               \<longrightarrow> analyzeTableOfContent W magazinePages s =
                     (Returned,
                      Log Error (''Unable to retieve the metadata of the file '' @
                          quoted (filepath_Join [folder, File page]))
                        (s \<lparr> sys := w3 \<rparr>))))
       \<and> (response \<noteq> [] \<and> Unmarshal_TableContent W response tableContent = (Some err, decoded)
           \<longrightarrow> candidates W folder (page # rest) tableContent s =
                 candidates W folder rest decoded
                   (Log Debug (''Received: '' @ response @ newline)
                      (Log Error
                         (''Unable to decode the table of content of file '' @
                            quoted (filepath_Join [folder, File page]) @ '': '' @ error_text err)
                         (s \<lparr> sys := w3 \<rparr>))))"
  using assms by (auto simp add: Let_def analyzeTableOfContent_def)

lemma empty_answer_requests:
  "SendRequestWithImage (example_world empty_answer_tables) TableOfContentAssistantPrompt
     ''/in/A1/p2.jpg'' disk_A1 = (Inr [], disk_A1)"
  "SendRequestWithImage (example_world malformed_answer_tables) TableOfContentAssistantPrompt
     ''/in/A1/p2.jpg'' disk_A1 = (Inr ''I cannot read this page.'', disk_A1)"
  "SendRequestWithImage (example_world malformed_answer_tables) TableOfContentAssistantPrompt
     ''/in/A1/p3.jpg'' disk_A1 = (Inr response_page4, disk_A1)"
  by (simp_all add: A1_requests table_defs urls_distinct)

lemma malformed_decode:
  "Unmarshal_TableContent (example_world malformed_answer_tables) ''I cannot read this page.'' v
     = (Some invalid_json, v)"
  "Unmarshal_TableContent (example_world malformed_answer_tables) response_page4 v
     = (None, \<lparr> toc_Error = [],
                Entries = [\<lparr> entry_Title = ''Tests'', PageNumbers = [4] \<rparr>] \<rparr>)"
  by (simp_all add: example_world_sel table_defs decode_into_def response_defs)

theorem candidates_empty_answer_witness:
  "analyzeTableOfContent (example_world empty_answer_tables) A1 (start disk_A1) =
     (Returned,
      Log Error (''Unable to retieve the metadata of the file '' @ quoted ''/in/A1/p2.jpg'')
        (start disk_A1))
   \<and> candidates (example_world malformed_answer_tables) ''/in/A1'' (tl (pages_Pages A1))
       \<lparr> toc_Error = [], Entries = [] \<rparr> (start disk_A1) =
     (Some \<lparr> toc_Error = [], Entries = [\<lparr> entry_Title = ''Tests'', PageNumbers = [4] \<rparr>] \<rparr>,
      Log Debug (''Received: I cannot read this page.'' @ newline)
        (Log Error
           (''Unable to decode the table of content of file '' @ quoted ''/in/A1/p2.jpg'' @
              '': '' @ error_text invalid_json)
           (start disk_A1)))"
proof -
  let ?p2 = "\<lparr> File = ''p2.jpg'', Number = 2 \<rparr>"
  let ?rest = "[\<lparr> File = ''p3.jpg'', Number = 3 \<rparr>, \<lparr> File = ''p4.jpg'', Number = 4 \<rparr>]"
  have pages: "pages_Pages A1 = \<lparr> File = ''p1.jpg'', Number = 1 \<rparr> # ?p2 # ?rest"
    by (simp add: A1_def)
  have stat: "os_Stat (example_world t) (filepath_Join [''/in/A1'', File ?p2])
      (sys (start disk_A1)) = (None, disk_A1)" for t
    by (simp add: A1_paths example_world_sel disk_A1_present start_def)
  have opn: "os_Open (example_world t) (filepath_Join [''/in/A1'', File ?p2]) disk_A1
      = (None, disk_A1)" for t
    by (simp add: A1_paths example_world_sel disk_A1_present)
  have req1: "SendRequestWithImage (example_world empty_answer_tables)
      TableOfContentAssistantPrompt (filepath_Join [''/in/A1'', File ?p2]) disk_A1
      = (Inr [], disk_A1)"
    by (simp add: A1_paths empty_answer_requests)
  have req2: "SendRequestWithImage (example_world malformed_answer_tables)
      TableOfContentAssistantPrompt (filepath_Join [''/in/A1'', File ?p2]) disk_A1
      = (Inr ''I cannot read this page.'', disk_A1)"
    by (simp add: A1_paths empty_answer_requests)
  have same: "(start disk_A1) \<lparr> sys := disk_A1 \<rparr> = start disk_A1"
    by (simp add: start_def)
  have first: "analyzeTableOfContent (example_world empty_answer_tables) A1 (start disk_A1) =
     (Returned,
      Log Error (''Unable to retieve the metadata of the file '' @ quoted ''/in/A1/p2.jpg'')
        (start disk_A1))"
    using candidates_empty_answer [OF stat opn req1,
        where tableContent = "\<lparr> toc_Error = [], Entries = [] \<rparr>" and magazinePages = A1
          and cover = "\<lparr> File = ''p1.jpg'', Number = 1 \<rparr>" and rest = ?rest]
    by (simp add: A1_pages(2) pages A1_paths same)
  have "candidates (example_world malformed_answer_tables) ''/in/A1'' (?p2 # ?rest)
       \<lparr> toc_Error = [], Entries = [] \<rparr> (start disk_A1) =
     candidates (example_world malformed_answer_tables) ''/in/A1'' ?rest
       \<lparr> toc_Error = [], Entries = [] \<rparr>
       (Log Debug (''Received: I cannot read this page.'' @ newline)
          (Log Error
             (''Unable to decode the table of content of file '' @ quoted ''/in/A1/p2.jpg'' @
                '': '' @ error_text invalid_json)
             (start disk_A1)))"
    using candidates_empty_answer [OF stat opn req2,
        where tableContent = "\<lparr> toc_Error = [], Entries = [] \<rparr>" and err = invalid_json
          and decoded = "\<lparr> toc_Error = [], Entries = [] \<rparr>" and rest = ?rest]
    by (simp add: malformed_decode A1_paths same)
  also have "\<dots> = (Some \<lparr> toc_Error = [], Entries = [\<lparr> entry_Title = ''Tests'', PageNumbers = [4] \<rparr>] \<rparr>,
      Log Debug (''Received: I cannot read this page.'' @ newline)
        (Log Error
           (''Unable to decode the table of content of file '' @ quoted ''/in/A1/p2.jpg'' @
              '': '' @ error_text invalid_json)
           (start disk_A1)))"
    by (simp add: A1_paths example_world_sel(1,2) disk_A1_present empty_answer_requests
        malformed_decode responses_not_empty start_def Log_def)
  finally show ?thesis
    using first by (simp add: pages)
qed

section \<open>Paths built by joining elements\<close>

lemma split_path_not_Nil: "split_path x \<noteq> []"
  by (induction x) (auto split: list.split)

lemma split_path_append:
  "split_path (a @ CHR ''/'' # e) = split_path a @ split_path e"
proof (induction a)
  case Nil
  then show ?case by (simp add: IsPathSeparator_def)
next
  case (Cons c a)
  then show ?case
    using split_path_not_Nil [of a]
    by (cases "split_path a") (auto simp: IsPathSeparator_def)
qed

lemma split_path_plain: "CHR ''/'' \<notin> set e \<Longrightarrow> split_path e = [e]"
  by (induction e) (auto simp: IsPathSeparator_def)

lemma strings_Join_snoc:
  "written \<noteq> [] \<Longrightarrow> strings_Join (written @ [e]) sep = strings_Join written sep @ sep @ e"
  by (induction written sep rule: strings_Join.induct) auto

lemma Join_element:
  assumes clean: "filepath_Clean x = x" and root: "x \<noteq> ''/''" and dot: "x \<noteq> ''.''"
    and plain: "CHR ''/'' \<notin> set e" "e \<noteq> []" "e \<noteq> ''.''" "e \<noteq> ''..''"
  shows "filepath_Join [x, e] = x @ ''/'' @ e"
    and "filepath_Clean (x @ ''/'' @ e) = x @ ''/'' @ e"
proof -
  from clean dot have "x \<noteq> []" by (auto simp: filepath_Clean_def)
  then obtain c cs where x: "x = c # cs" by (cases x) auto
  define r where "r = IsPathSeparator c"
  define written where "written = foldl (clean_step r) [] (split_path x)"
  have rendered: "render_path r written = x"
    using clean by (simp add: x filepath_Clean_def r_def written_def)
  have nonempty: "written \<noteq> []"
    using rendered root dot by (auto simp: render_path_def split: if_splits)
  have "split_path (x @ ''/'' @ e) = split_path x @ [e]"
    using plain(1) by (simp add: split_path_append split_path_plain)
  then have "foldl (clean_step r) [] (split_path (x @ ''/'' @ e)) = written @ [e]"
    using plain by (simp add: written_def clean_step_def)
  then have "filepath_Clean (x @ ''/'' @ e) = render_path r (written @ [e])"
    by (simp add: x filepath_Clean_def r_def)
  also have "\<dots> = render_path r written @ ''/'' @ e"
    using nonempty by (simp add: render_path_def strings_Join_snoc)
  finally show c: "filepath_Clean (x @ ''/'' @ e) = x @ ''/'' @ e"
    by (simp add: rendered)
  from \<open>x \<noteq> []\<close> show "filepath_Join [x, e] = x @ ''/'' @ e"
    using c by (simp add: filepath_Join_def x)
qed

lemma split_path_no_slash: "e \<in> set (split_path x) \<Longrightarrow> CHR ''/'' \<notin> set e"
proof (induction x arbitrary: e)
  case Nil
  then show ?case by simp
next
  case (Cons c x)
  then show ?case
    using split_path_not_Nil [of x]
    by (cases "split_path x") (auto simp: IsPathSeparator_def split: if_splits)
qed

lemma split_path_Join:
  "written \<noteq> [] \<Longrightarrow> \<forall>e \<in> set written. CHR ''/'' \<notin> set e \<Longrightarrow>
   split_path (strings_Join written ''/'') = written"
proof (induction written "''/''" rule: strings_Join.induct)
  case 1
  then show ?case by simp
next
  case (2 x)
  then show ?case by (simp add: split_path_plain)
next
  case (3 x y ys)
  then have "split_path (x @ CHR ''/'' # strings_Join (y # ys) ''/'') =
      split_path x @ split_path (strings_Join (y # ys) ''/'')"
    by (simp only: split_path_append)
  with 3 show ?case by (simp add: split_path_plain)
qed

text \<open>The elements that \<open>filepath.Clean\<close> keeps as they are.\<close>

lemma clean_step_real:
  "e \<noteq> [] \<Longrightarrow> e \<noteq> ''.'' \<Longrightarrow> e \<noteq> ''..'' \<Longrightarrow> clean_step rooted written e = written @ [e]"
  by (simp add: clean_step_def)

lemma foldl_clean_step_real:
  "\<forall>e \<in> set es. e \<noteq> [] \<and> e \<noteq> ''.'' \<and> e \<noteq> ''..'' \<Longrightarrow>
   foldl (clean_step rooted) written es = written @ es"
  by (induction es arbitrary: written) (simp_all add: clean_step_real)

lemma foldl_clean_step_dots:
  "foldl (clean_step False) (replicate j ''..'') (replicate k ''..'') = replicate (j + k) ''..''"
proof (induction k arbitrary: j)
  case 0
  then show ?case by simp
next
  case (Suc k)
  have "clean_step False (replicate j ''..'') ''..'' = replicate (Suc j) ''..''"
    by (cases j) (simp_all add: clean_step_def replicate_append_same)
  with Suc [of "Suc j"] show ?case by simp
qed

lemma clean_step_normal:
  assumes "written = replicate k ''..'' @ body" and "rooted \<longrightarrow> k = 0"
    and "\<forall>e \<in> set body. e \<noteq> [] \<and> e \<noteq> ''.'' \<and> e \<noteq> ''..'' \<and> CHR ''/'' \<notin> set e"
    and "CHR ''/'' \<notin> set x"
  shows "\<exists>k' body'. clean_step rooted written x = replicate k' ''..'' @ body' \<and>
      (rooted \<longrightarrow> k' = 0) \<and>
      (\<forall>e \<in> set body'. e \<noteq> [] \<and> e \<noteq> ''.'' \<and> e \<noteq> ''..'' \<and> CHR ''/'' \<notin> set e)"
proof -
  consider "x = [] \<or> x = ''.''" | "x = ''..''" "body \<noteq> []" | "x = ''..''" "body = []"
    | "x \<noteq> []" "x \<noteq> ''.''" "x \<noteq> ''..''"
    by blast
  then show ?thesis
  proof cases
    case 1
    then have "clean_step rooted written x = replicate k ''..'' @ body"
      by (auto simp: clean_step_def assms(1))
    with assms(2,3) show ?thesis by blast
  next
    case 2
    then have "last written \<noteq> ''..''" "written \<noteq> []"
      using assms(1,3) by (simp_all add: last_in_set)
    then have "clean_step rooted written x = replicate k ''..'' @ butlast body"
      using 2 by (simp add: clean_step_def assms(1) butlast_append)
    moreover have "\<forall>e \<in> set (butlast body). e \<noteq> [] \<and> e \<noteq> ''.'' \<and> e \<noteq> ''..'' \<and> CHR ''/'' \<notin> set e"
      using assms(3) by (auto dest: in_set_butlastD)
    ultimately show ?thesis using assms(2) by blast
  next
    case 3
    then have w: "written = replicate k ''..''" by (simp add: assms(1))
    then have "written = [] \<or> last written = ''..''" by (cases k) simp_all
    then have "clean_step rooted written x = (if rooted then written else written @ [''..''])"
      using 3 by (auto simp: clean_step_def)
    then have "clean_step rooted written x =
        replicate (if rooted then k else Suc k) ''..'' @ []"
      by (simp add: w replicate_append_same)
    moreover have "rooted \<longrightarrow> (if rooted then k else Suc k) = 0"
      using assms(2) by simp
    ultimately show ?thesis by (metis empty_iff empty_set)
  next
    case 4
    then have "clean_step rooted written x = replicate k ''..'' @ (body @ [x])"
      by (simp add: clean_step_def assms(1))
    moreover have "\<forall>e \<in> set (body @ [x]). e \<noteq> [] \<and> e \<noteq> ''.'' \<and> e \<noteq> ''..'' \<and> CHR ''/'' \<notin> set e"
      using assms(3,4) 4 by auto
    ultimately show ?thesis using assms(2) by blast
  qed
qed

lemma foldl_clean_step_normal:
  assumes "written = replicate k ''..'' @ body" and "rooted \<longrightarrow> k = 0"
    and "\<forall>e \<in> set body. e \<noteq> [] \<and> e \<noteq> ''.'' \<and> e \<noteq> ''..'' \<and> CHR ''/'' \<notin> set e"
    and "\<forall>x \<in> set xs. CHR ''/'' \<notin> set x"
  shows "\<exists>k' body'. foldl (clean_step rooted) written xs = replicate k' ''..'' @ body' \<and>
      (rooted \<longrightarrow> k' = 0) \<and>
      (\<forall>e \<in> set body'. e \<noteq> [] \<and> e \<noteq> ''.'' \<and> e \<noteq> ''..'' \<and> CHR ''/'' \<notin> set e)"
  using assms
proof (induction xs arbitrary: written k body)
  case Nil
  show ?case
    unfolding foldl_Nil
    by (intro exI conjI) (rule Nil.prems(1), rule Nil.prems(2), rule Nil.prems(3))
next
  case (Cons x xs)
  from Cons.prems(4) have x: "CHR ''/'' \<notin> set x" and xs: "\<forall>x \<in> set xs. CHR ''/'' \<notin> set x"
    by simp_all
  from clean_step_normal [OF Cons.prems(1,2,3) x] obtain k' body' where
    step: "clean_step rooted written x = replicate k' ''..'' @ body'" and k': "rooted \<longrightarrow> k' = 0"
    and body': "\<forall>e \<in> set body'. e \<noteq> [] \<and> e \<noteq> ''.'' \<and> e \<noteq> ''..'' \<and> CHR ''/'' \<notin> set e"
    by (elim exE conjE)
  show ?case
    unfolding foldl_Cons by (rule Cons.IH [OF step k' body' xs])
qed

lemma cleaned_normal:
  "\<exists>k body. foldl (clean_step rooted) [] (split_path x) = replicate k ''..'' @ body \<and>
      (rooted \<longrightarrow> k = 0) \<and>
      (\<forall>e \<in> set body. e \<noteq> [] \<and> e \<noteq> ''.'' \<and> e \<noteq> ''..'' \<and> CHR ''/'' \<notin> set e)"
proof (rule foldl_clean_step_normal [where k = 0 and body = "[]"])
  show "[] = replicate 0 ''..'' @ []" by simp
  show "rooted \<longrightarrow> (0::nat) = 0" by simp
  show "\<forall>e \<in> set []. e \<noteq> [] \<and> e \<noteq> ''.'' \<and> e \<noteq> ''..'' \<and> CHR ''/'' \<notin> set e" by simp
  show "\<forall>e \<in> set (split_path x). CHR ''/'' \<notin> set e"
    using split_path_no_slash by blast
qed

lemma strings_Join_hd:
  "written \<noteq> [] \<Longrightarrow> hd written \<noteq> [] \<Longrightarrow>
   \<exists>cs. strings_Join written sep = hd (hd written) # cs"
proof (induction written sep rule: strings_Join.induct)
  case (1 sep)
  then show ?case by simp
next
  case (2 x sep)
  then show ?case by (cases x) simp_all
next
  case (3 x y ys sep)
  then show ?case by (cases x) simp_all
qed

lemma normal_elements:
  assumes "written = replicate k ''..'' @ body"
    and "\<forall>e \<in> set body. e \<noteq> [] \<and> e \<noteq> ''.'' \<and> e \<noteq> ''..'' \<and> CHR ''/'' \<notin> set e"
  shows "\<forall>e \<in> set written. e \<noteq> [] \<and> e \<noteq> ''.'' \<and> CHR ''/'' \<notin> set e"
proof
  fix e
  assume "e \<in> set written"
  then consider "e = ''..''" | "e \<in> set body"
    unfolding assms(1) by (cases k) auto
  then show "e \<noteq> [] \<and> e \<noteq> ''.'' \<and> CHR ''/'' \<notin> set e"
  proof cases
    case 1
    then show ?thesis by simp
  next
    case 2
    with assms(2) show ?thesis by blast
  qed
qed


lemma recleaned:
  assumes "written = replicate k ''..'' @ body" and "rooted \<longrightarrow> k = 0"
    and "\<forall>e \<in> set body. e \<noteq> [] \<and> e \<noteq> ''.'' \<and> e \<noteq> ''..'' \<and> CHR ''/'' \<notin> set e"
  shows "foldl (clean_step rooted) [] (split_path (render_path rooted written)) = written"
    and "\<exists>c cs. render_path rooted written = c # cs \<and> IsPathSeparator c = rooted"
proof -
  have elements: "\<forall>e \<in> set written. e \<noteq> [] \<and> e \<noteq> ''.'' \<and> CHR ''/'' \<notin> set e"
    using assms(1,3) by (rule normal_elements)
  have real: "\<forall>e \<in> set body. e \<noteq> [] \<and> e \<noteq> ''.'' \<and> e \<noteq> ''..''"
    using assms(3) by blast
  have "foldl (clean_step rooted) [] (replicate k ''..'') = replicate k ''..''"
  proof (cases rooted)
    case True
    with assms(2) show ?thesis by simp
  next
    case False
    then show ?thesis using foldl_clean_step_dots [of 0 k] by simp
  qed
  then have again: "foldl (clean_step rooted) [] written = written"
    by (simp add: assms(1) foldl_clean_step_real [OF real])
  have skip: "foldl (clean_step rooted) [] ([] # xs) = foldl (clean_step rooted) [] xs" for xs
    by (simp add: clean_step_def)
  show "foldl (clean_step rooted) [] (split_path (render_path rooted written)) = written"
  proof (cases "written = []")
    case True
    then show ?thesis
      by (simp add: render_path_def IsPathSeparator_def clean_step_def)
  next
    case False
    moreover have "\<forall>e \<in> set written. CHR ''/'' \<notin> set e"
      using elements by blast
    ultimately have joined: "split_path (strings_Join written ''/'') = written"
      by (rule split_path_Join)
    show ?thesis
    proof (cases rooted)
      case True
      have "split_path (''/'' @ strings_Join written ''/'') =
          split_path [] @ split_path (strings_Join written ''/'')"
        using split_path_append [of "[]" "strings_Join written ''/''"] by simp
      then have "split_path (render_path rooted written) = [] # written"
        using True by (simp add: render_path_def joined)
      then show ?thesis by (simp only: skip again)
    next
      case r: False
      then have "render_path rooted written = strings_Join written ''/''"
        using False by (simp add: render_path_def)
      then show ?thesis by (simp only: joined again)
    qed
  qed
  show "\<exists>c cs. render_path rooted written = c # cs \<and> IsPathSeparator c = rooted"
  proof (cases rooted)
    case True
    then show ?thesis by (simp add: render_path_def IsPathSeparator_def)
  next
    case r: False
    show ?thesis
    proof (cases "written = []")
      case True
      then show ?thesis using r by (simp add: render_path_def IsPathSeparator_def)
    next
      case False
      then have "hd written \<in> set written" by simp
      with elements have h: "hd written \<noteq> []" "CHR ''/'' \<notin> set (hd written)" by blast+
      then have "hd (hd written) \<noteq> CHR ''/''" by (cases "hd written") auto
      moreover from strings_Join_hd [OF False h(1)] obtain cs where
        "strings_Join written ''/'' = hd (hd written) # cs" by blast
      ultimately show ?thesis
        using r False by (simp add: render_path_def IsPathSeparator_def)
    qed
  qed
qed

lemma Clean_render:
  assumes "written = replicate k ''..'' @ body" and "rooted \<longrightarrow> k = 0"
    and "\<forall>e \<in> set body. e \<noteq> [] \<and> e \<noteq> ''.'' \<and> e \<noteq> ''..'' \<and> CHR ''/'' \<notin> set e"
  shows "filepath_Clean (render_path rooted written) = render_path rooted written"
proof -
  from recleaned(2) [OF assms] obtain c cs where
    p: "render_path rooted written = c # cs" and r: "IsPathSeparator c = rooted" by blast
  have "filepath_Clean (c # cs) =
      render_path rooted (foldl (clean_step rooted) [] (split_path (c # cs)))"
    by (simp add: filepath_Clean_def r)
  then show ?thesis
    using recleaned(1) [OF assms] by (simp only: p [symmetric])
qed

lemma strings_Join_dot:
  assumes "strings_Join written ''/'' = ''.''" and "written \<noteq> []" and "hd written \<noteq> []"
  shows "hd written = ''.''"
proof (cases written)
  case Nil
  with assms(2) show ?thesis by simp
next
  case (Cons a rest)
  show ?thesis
  proof (cases rest)
    case Nil
    with Cons assms(1) show ?thesis by simp
  next
    case (Cons b rest')
    with \<open>written = a # rest\<close> assms(1)
    have "a @ ''/'' @ strings_Join (b # rest') ''/'' = ''.''" by simp
    moreover from \<open>written = a # rest\<close> assms(3) obtain c cs where "a = c # cs"
      by (cases a) auto
    ultimately show ?thesis by simp
  qed
qed

lemma render_path_proper:
  assumes "written \<noteq> []"
    and "\<forall>e \<in> set written. e \<noteq> [] \<and> e \<noteq> ''.'' \<and> CHR ''/'' \<notin> set e"
  shows "render_path rooted written \<noteq> ''/''" and "render_path rooted written \<noteq> ''.''"
proof -
  from assms have h: "hd written \<noteq> []" "hd written \<noteq> ''.''" "CHR ''/'' \<notin> set (hd written)"
    by (metis hd_in_set)+
  from strings_Join_hd [OF assms(1) h(1)] obtain cs where
    j: "strings_Join written ''/'' = hd (hd written) # cs" by blast
  from h(1,3) have c: "hd (hd written) \<noteq> CHR ''/''" by (cases "hd written") auto
  show "render_path rooted written \<noteq> ''/''"
    using assms(1) j c by (simp add: render_path_def)
  show "render_path rooted written \<noteq> ''.''"
  proof (cases rooted)
    case True
    then show ?thesis by (simp add: render_path_def)
  next
    case False
    have "strings_Join written ''/'' \<noteq> ''.''"
      using strings_Join_dot [OF _ assms(1) h(1)] h(2) by blast
    with False assms(1) show ?thesis by (simp add: render_path_def)
  qed
qed

lemma Join_first:
  assumes plain: "CHR ''/'' \<notin> set e" "e \<noteq> []" "e \<noteq> ''.''" "e \<noteq> ''..''"
  shows "filepath_Join [x, e] =
           (if filepath_Clean x = ''.'' then []
            else if filepath_Clean x = ''/'' then ''/''
            else filepath_Clean x @ ''/'') @ e"
    and "filepath_Clean (filepath_Join [x, e]) = filepath_Join [x, e]"
    and "filepath_Join [x, e] \<noteq> ''/''"
    and "filepath_Join [x, e] \<noteq> ''.''"
proof -
  define r where "r = (case x of [] \<Rightarrow> False | c # _ \<Rightarrow> IsPathSeparator c)"
  define written where
    "written = (case x of [] \<Rightarrow> [] | _ # _ \<Rightarrow> foldl (clean_step r) [] (split_path x))"
  have "\<exists>k body. written = replicate k ''..'' @ body \<and> (r \<longrightarrow> k = 0) \<and>
      (\<forall>e \<in> set body. e \<noteq> [] \<and> e \<noteq> ''.'' \<and> e \<noteq> ''..'' \<and> CHR ''/'' \<notin> set e)"
  proof (cases x)
    case Nil
    have "written = replicate 0 ''..'' @ []" by (simp add: written_def Nil)
    moreover have "r \<longrightarrow> (0::nat) = 0" by simp
    moreover have "\<forall>e \<in> set []. e \<noteq> [] \<and> e \<noteq> ''.'' \<and> e \<noteq> ''..'' \<and> CHR ''/'' \<notin> set e"
      by simp
    ultimately show ?thesis by blast
  next
    case (Cons c cs)
    then have "written = foldl (clean_step r) [] (split_path x)" by (simp add: written_def)
    then show ?thesis by (simp only: cleaned_normal)
  qed
  then obtain k body where w: "written = replicate k ''..'' @ body" and k: "r \<longrightarrow> k = 0"
    and body: "\<forall>e \<in> set body. e \<noteq> [] \<and> e \<noteq> ''.'' \<and> e \<noteq> ''..'' \<and> CHR ''/'' \<notin> set e"
    by (elim exE conjE)
  have cleaned: "filepath_Clean x = render_path r written"
    by (cases x) (simp_all add: filepath_Clean_def r_def written_def render_path_def)
  have w1: "written @ [e] = replicate k ''..'' @ (body @ [e])" by (simp add: w)
  have body1: "\<forall>e \<in> set (body @ [e]). e \<noteq> [] \<and> e \<noteq> ''.'' \<and> e \<noteq> ''..'' \<and> CHR ''/'' \<notin> set e"
    using body plain by simp
  have joined: "filepath_Join [x, e] = render_path r (written @ [e])"
  proof (cases x)
    case Nil
    from plain(1,2) obtain c cs where e: "e = c # cs" and c: "\<not> IsPathSeparator c"
      by (cases e) (auto simp: IsPathSeparator_def)
    have "filepath_Clean (c # cs) =
        render_path False (foldl (clean_step False) [] (split_path (c # cs)))"
      using c by (simp add: filepath_Clean_def)
    then have "filepath_Clean e = render_path False (foldl (clean_step False) [] [e])"
      using split_path_plain [OF plain(1)] by (simp only: e [symmetric])
    then show ?thesis
      using plain by (simp add: Nil filepath_Join_def written_def r_def clean_step_def)
  next
    case (Cons c cs)
    have "split_path (x @ ''/'' @ e) = split_path x @ [e]"
      using plain(1) by (simp add: split_path_append split_path_plain)
    then have "foldl (clean_step r) [] (split_path (x @ ''/'' @ e)) = written @ [e]"
      using plain by (simp add: written_def Cons clean_step_def)
    then have "filepath_Clean (x @ ''/'' @ e) = render_path r (written @ [e])"
      by (simp add: Cons filepath_Clean_def r_def)
    then show ?thesis by (simp add: filepath_Join_def Cons)
  qed
  show "filepath_Clean (filepath_Join [x, e]) = filepath_Join [x, e]"
    unfolding joined using w1 k body1 by (rule Clean_render)
  have elements: "\<forall>e \<in> set (written @ [e]). e \<noteq> [] \<and> e \<noteq> ''.'' \<and> CHR ''/'' \<notin> set e"
    using w1 body1 by (rule normal_elements)
  have nonempty: "written @ [e] \<noteq> []" by simp
  show "filepath_Join [x, e] \<noteq> ''/''"
    unfolding joined using nonempty elements by (rule render_path_proper(1))
  show "filepath_Join [x, e] \<noteq> ''.''"
    unfolding joined using nonempty elements by (rule render_path_proper(2))
  show "filepath_Join [x, e] =
           (if filepath_Clean x = ''.'' then []
            else if filepath_Clean x = ''/'' then ''/''
            else filepath_Clean x @ ''/'') @ e"
  proof (cases "written = []")
    case True
    then show ?thesis
      unfolding joined cleaned by (cases r) (simp_all add: render_path_def)
  next
    case False
    have "\<forall>e \<in> set written. e \<noteq> [] \<and> e \<noteq> ''.'' \<and> CHR ''/'' \<notin> set e"
      using w body by (rule normal_elements)
    with False have "render_path r written \<noteq> ''/''" "render_path r written \<noteq> ''.''"
      by (rule render_path_proper)+
    moreover have "render_path r (written @ [e]) = render_path r written @ ''/'' @ e"
      using False by (simp add: render_path_def strings_Join_snoc)
    ultimately show ?thesis
      unfolding joined cleaned by simp
  qed
qed

lemma digit_set: "n < 10 \<Longrightarrow> digit n \<in> set ''0123456789''"
  unfolding digit_def by (rule nth_mem) simp

lemma fmt_d_digits: "set (fmt_d n) \<subseteq> set ''0123456789''"
proof (induction n rule: fmt_d.induct)
  case (1 n)
  show ?case
  proof (cases "n < 10")
    case True
    then show ?thesis using digit_set [of n] by (subst fmt_d.simps) simp
  next
    case False
    have "n mod 10 < 10" by simp
    then have "digit (n mod 10) \<in> set ''0123456789''" by (rule digit_set)
    with False "1.IH" show ?thesis by (subst fmt_d.simps) simp
  qed
qed

lemma fmt_d_not_Nil: "fmt_d n \<noteq> []"
  by (subst fmt_d.simps) simp

lemma fmt_0d_digits: "set (fmt_0d width n) \<subseteq> set ''0123456789''"
  using fmt_d_digits [of n] by (auto simp: fmt_0d_def)

lemma fmt_0d_not_Nil: "fmt_0d width n \<noteq> []"
  by (simp add: fmt_0d_def fmt_d_not_Nil)

lemma months_no_slash: "name \<in> set months \<Longrightarrow> CHR ''/'' \<notin> set name"
  by (auto simp: months_def e_acute_def u_circ_def)

lemma toNames_subset: "set (toNames nums) \<subseteq> set months"
proof -
  have "months ! unat (n - 1) \<in> set months" if "1 \<le> n" "n \<le> 12" for n :: u8
  proof -
    from that have "1 \<le> unat n" "unat n \<le> 12"
      by (simp_all add: word_le_nat_alt)
    moreover from that(1) have "unat (n - 1) = unat n - unat (1 :: u8)"
      by (rule unat_sub)
    moreover have "length months = 12" by (simp add: months_def)
    ultimately have "unat (n - 1) < length months" by simp
    then show ?thesis by (rule nth_mem)
  qed
  then show ?thesis
    by (auto simp: toNames_def toNames_foldl)
qed


lemma strings_Join_no_slash:
  "\<forall>x \<in> set xs. CHR ''/'' \<notin> set x \<Longrightarrow> CHR ''/'' \<notin> set sep
   \<Longrightarrow> CHR ''/'' \<notin> set (strings_Join xs sep)"
  by (induction xs sep rule: strings_Join.induct) auto

lemma digits_no_slash: "set ds \<subseteq> set ''0123456789'' \<Longrightarrow> CHR ''/'' \<notin> set ds"
  by auto

lemma digits_no_dot: "set ds \<subseteq> set ''0123456789'' \<Longrightarrow> CHR ''.'' \<notin> set ds"
  by auto

lemma publicationMonths_no_slash: "CHR ''/'' \<notin> set (publicationMonths magazine)"
  unfolding publicationMonths_def
  using toNames_subset months_no_slash
  by (intro strings_Join_no_slash) auto

lemma ext_scan_no_slash:
  "CHR ''/'' \<notin> set suffix \<Longrightarrow> CHR ''/'' \<notin> set (ext_scan cs suffix)"
  by (induction cs suffix rule: ext_scan.induct) (auto simp: IsPathSeparator_def)

lemma filepath_Ext_no_slash: "CHR ''/'' \<notin> set (filepath_Ext path)"
  by (simp add: filepath_Ext_def ext_scan_no_slash)

lemma ascii_lower_slash: "ascii_lower c = CHR ''/'' \<longleftrightarrow> c = CHR ''/''"
  by (auto simp: ascii_lower_def)

lemma ascii_lower_no_slash:
  assumes "CHR ''/'' \<notin> set s"
  shows "CHR ''/'' \<notin> set (map ascii_lower s)"
proof
  assume "CHR ''/'' \<in> set (map ascii_lower s)"
  then obtain c where "c \<in> set s" and "ascii_lower c = CHR ''/''" by auto
  then have "CHR ''/'' \<in> set s" by (simp add: ascii_lower_slash)
  with assms show False by simp
qed


lemma pageFileName_ascii:
  "isASCII (filepath_Ext (File magazinePage)) \<Longrightarrow>
   pageFileName W magazinePage =
     fmt_0d 3 (unat (Number magazinePage)) @ map ascii_lower (filepath_Ext (File magazinePage))"
  by (simp add: pageFileName_def strings_ToLower_def)

lemma digits_element:
  assumes "set ds \<subseteq> set ''0123456789''" and "ds \<noteq> []"
  shows "ds @ tail \<noteq> []" and "ds @ tail \<noteq> ''.''" and "ds @ tail \<noteq> ''..''"
proof -
  from assms obtain d ds' where ds: "ds = d # ds'" by (cases ds) auto
  with assms(1) have "d \<noteq> CHR ''.''" by auto
  with ds show "ds @ tail \<noteq> []" and "ds @ tail \<noteq> ''.''" and "ds @ tail \<noteq> ''..''"
    by simp_all
qed

lemma dstPath_steps:
  assumes title: "CHR ''/'' \<notin> set (Title (Metadata magazine))"
  shows "newPublicationFolder c magazine =
        (if filepath_Clean (workingDirectory c) = ''.'' then []
         else if filepath_Clean (workingDirectory c) = ''/'' then ''/''
         else filepath_Clean (workingDirectory c) @ ''/'') @
          ''test-'' @ Title (Metadata magazine)"
    and "newPublicationFolderNumber c magazine =
           newPublicationFolder c magazine @
             ''/Num'' @ e_acute @ ''ro '' @ fmt_0d 2 (unat (meta_Number (Metadata magazine))) @
             '' | '' @ publicationMonths magazine @ '' '' @
             fmt_d (unat (Year (Metadata magazine)))"
    and "filepath_Clean (newPublicationFolderNumber c magazine) =
           newPublicationFolderNumber c magazine"
    and "newPublicationFolderNumber c magazine \<noteq> ''/''"
    and "newPublicationFolderNumber c magazine \<noteq> ''.''"
proof -
  let ?e1 = "Prefix @ Title (Metadata magazine)"
  let ?e2 = "''Num'' @ e_acute @ ''ro '' @ fmt_0d 2 (unat (meta_Number (Metadata magazine))) @
          '' | '' @ publicationDate magazine"
  have e1: "CHR ''/'' \<notin> set ?e1" "?e1 \<noteq> []" "?e1 \<noteq> ''.''" "?e1 \<noteq> ''..''"
    using title by (simp_all add: Prefix_def)
  have f1: "newPublicationFolder c magazine =
        (if filepath_Clean (workingDirectory c) = ''.'' then []
         else if filepath_Clean (workingDirectory c) = ''/'' then ''/''
         else filepath_Clean (workingDirectory c) @ ''/'') @ ?e1"
    unfolding newPublicationFolder_def using e1 by (rule Join_first(1))
  have c1: "filepath_Clean (newPublicationFolder c magazine) = newPublicationFolder c magazine"
    unfolding newPublicationFolder_def using e1 by (rule Join_first(2))
  have n1: "newPublicationFolder c magazine \<noteq> ''/''" "newPublicationFolder c magazine \<noteq> ''.''"
    unfolding newPublicationFolder_def using e1 by (rule Join_first(3), rule Join_first(4))
  have "CHR ''/'' \<notin> set (fmt_0d 2 (unat (meta_Number (Metadata magazine))))"
    using fmt_0d_digits by (rule digits_no_slash)
  moreover have "CHR ''/'' \<notin> set (fmt_d (unat (Year (Metadata magazine))))"
    using fmt_d_digits by (rule digits_no_slash)
  ultimately have e2: "CHR ''/'' \<notin> set ?e2" "?e2 \<noteq> []" "?e2 \<noteq> ''.''" "?e2 \<noteq> ''..''"
    using publicationMonths_no_slash [of magazine]
    by (simp_all add: publicationDate_def e_acute_def)
  have f2: "newPublicationFolderNumber c magazine =
      newPublicationFolder c magazine @ ''/'' @ ?e2"
    unfolding newPublicationFolderNumber_def using c1 n1 e2 by (rule Join_element(1))
  show "newPublicationFolder c magazine =
        (if filepath_Clean (workingDirectory c) = ''.'' then []
         else if filepath_Clean (workingDirectory c) = ''/'' then ''/''
         else filepath_Clean (workingDirectory c) @ ''/'') @
          ''test-'' @ Title (Metadata magazine)"
    using f1 by (simp only: Prefix_def)
  show "newPublicationFolderNumber c magazine =
           newPublicationFolder c magazine @
             ''/Num'' @ e_acute @ ''ro '' @ fmt_0d 2 (unat (meta_Number (Metadata magazine))) @
             '' | '' @ publicationMonths magazine @ '' '' @
             fmt_d (unat (Year (Metadata magazine)))"
    by (simp add: f2 publicationDate_def)
  show "filepath_Clean (newPublicationFolderNumber c magazine) =
           newPublicationFolderNumber c magazine"
    unfolding f2 using c1 n1 e2 by (rule Join_element(2))
  show "newPublicationFolderNumber c magazine \<noteq> ''/''"
    and "newPublicationFolderNumber c magazine \<noteq> ''.''"
    by (cases "newPublicationFolder c magazine"; simp add: f2)+
qed

section \<open>Where the Copier writes\<close>

lemma stdout_Print [simp]: "stdout (Print line s) = stdout s @ [line]"
  by (simp add: Print_def)

lemma copyPage_stdout:
  "copyPage W c magazine magazinePage s = (None, s1) \<Longrightarrow>
   stdout s1 = stdout s @ [''File '' @ dstPath W c magazine magazinePage @ '' copied'' @ newline]"
  by (auto simp: copyPage_def Let_def split: prod.splits option.splits)

lemma copyPages_stdout:
  "copyPages W c magazine pages s = (None, s1) \<Longrightarrow>
   stdout s1 = stdout s @
     map (\<lambda>magazinePage. ''File '' @ dstPath W c magazine magazinePage @ '' copied'' @ newline) pages"
proof (induction pages arbitrary: s)
  case Nil
  then show ?case by simp
next
  case (Cons magazinePage rest)
  obtain r s2 where step: "copyPage W c magazine magazinePage s = (r, s2)"
    by (metis prod.collapse)
  with Cons.prems have r: "r = None" and rest: "copyPages W c magazine rest s2 = (None, s1)"
    by (cases r; simp)+
  from step r have "stdout s2 = stdout s @
      [''File '' @ dstPath W c magazine magazinePage @ '' copied'' @ newline]"
    by (simp add: copyPage_stdout)
  with Cons.IH [OF rest] show ?case by simp
qed





lemma dstPath_formula:
  assumes "CHR ''/'' \<notin> set (Title (Metadata magazine))"
    and "isASCII (filepath_Ext (File magazinePage))"
  shows "dstPath W c magazine magazinePage =
      newPublicationFolderNumber c magazine @
        ''/'' @ fmt_0d 3 (unat (Number magazinePage)) @
        map ascii_lower (filepath_Ext (File magazinePage))"
proof -
  note steps = dstPath_steps [OF assms(1)]
  let ?e3 = "fmt_0d 3 (unat (Number magazinePage)) @
      map ascii_lower (filepath_Ext (File magazinePage))"
  have name: "pageFileName W magazinePage = ?e3"
    using assms(2) by (rule pageFileName_ascii)
  have "CHR ''/'' \<notin> set (fmt_0d 3 (unat (Number magazinePage)))"
    using fmt_0d_digits by (rule digits_no_slash)
  moreover have "CHR ''/'' \<notin> set (map ascii_lower (filepath_Ext (File magazinePage)))"
    using filepath_Ext_no_slash by (rule ascii_lower_no_slash)
  ultimately have slash: "CHR ''/'' \<notin> set ?e3" by simp
  have e3: "?e3 \<noteq> []" "?e3 \<noteq> ''.''" "?e3 \<noteq> ''..''"
    using fmt_0d_digits fmt_0d_not_Nil by (rule digits_element)+
  show ?thesis
    unfolding dstPath_def name
    using steps(3,4,5) slash e3 by (rule Join_element(1))
qed


lemma replicate_small:
  "replicate 0 c = []" "replicate 1 c = [c]" "replicate 2 c = [c, c]" "replicate 3 c = [c, c, c]"
  by (simp_all add: numeral_2_eq_2 numeral_3_eq_3)

lemma fmt_values:
  "fmt_d 42 = ''42''" "fmt_d 43 = ''43''" "fmt_d 1991 = ''1991''"
  "fmt_0d 2 42 = ''42''" "fmt_0d 2 43 = ''43''"
  "fmt_0d 3 1 = ''001''" "fmt_0d 3 2 = ''002''" "fmt_0d 3 3 = ''003''"
  by (simp_all add: fmt_0d_def fmt_d.simps digit_def replicate_small)


lemma fmt_one: "fmt_0d 3 (Suc 0) = ''001''"
  using fmt_values(6) by simp

lemma tilt_fields:
  "Title (Metadata tilt_scan) = ''Tilt''" "unat (meta_Number (Metadata tilt_scan)) = 42"
  "Month (Metadata tilt_scan) = [6]" "unat (Year (Metadata tilt_scan)) = 1991"
  "Title (Metadata tilt_broken) = ''Tilt''" "unat (meta_Number (Metadata tilt_broken)) = 42"
  "Month (Metadata tilt_broken) = [6]" "unat (Year (Metadata tilt_broken)) = 1991"
  "Title (Metadata tilt_next) = ''Tilt''" "unat (meta_Number (Metadata tilt_next)) = 43"
  "Month (Metadata tilt_next) = [7, 8]" "unat (Year (Metadata tilt_next)) = 1991"
  by (simp_all add: tilt_scan_def tilt_broken_def tilt_next_def tilt_def)

lemma month_names:
  "toNames [6] = [''Juin'']"
  "toNames [7, 8] = [''Juillet'', ''Ao'' @ u_circ @ ''t'']"
  by (simp_all add: toNames_def toNames_step_def months_def)

lemma tilt_names:
  "publicationDate tilt_scan = ''Juin 1991''"
  "publicationDate tilt_broken = ''Juin 1991''"
  "publicationDate tilt_next = ''Juillet - Ao'' @ u_circ @ ''t 1991''"
  by (simp_all add: publicationDate_def publicationMonths_def tilt_fields month_names fmt_values)

lemma tilt_folders:
  "newPublicationFolder copier_out tilt_scan = ''/out/test-Tilt''"
  "newPublicationFolder copier_out tilt_broken = ''/out/test-Tilt''"
  "newPublicationFolder copier_out tilt_next = ''/out/test-Tilt''"
  by (simp_all add: newPublicationFolder_def copier_out_def tilt_fields Prefix_def path_eval)



lemma tilt_title:
  "CHR ''/'' \<notin> set (Title (Metadata tilt_scan))"
  "CHR ''/'' \<notin> set (Title (Metadata tilt_broken))"
  "CHR ''/'' \<notin> set (Title (Metadata tilt_next))"
  by (simp_all add: tilt_fields)

lemma tilt_number_folders:
  "newPublicationFolderNumber copier_out tilt_scan =
     ''/out/test-Tilt/Num'' @ e_acute @ ''ro 42 | Juin 1991''"
  "newPublicationFolderNumber copier_out tilt_broken =
     ''/out/test-Tilt/Num'' @ e_acute @ ''ro 42 | Juin 1991''"
  "newPublicationFolderNumber copier_out tilt_next =
     ''/out/test-Tilt/Num'' @ e_acute @ ''ro 43 | Juillet - Ao'' @ u_circ @ ''t 1991''"
  by (simp_all add: dstPath_steps(2) [OF tilt_title(1)] dstPath_steps(2) [OF tilt_title(2)]
      dstPath_steps(2) [OF tilt_title(3)] tilt_folders tilt_fields publicationMonths_def
      month_names fmt_values)

lemma extensions:
  "filepath_Ext ''Cover.JPG'' = ''.JPG''" "filepath_Ext ''p1.jpg'' = ''.jpg''"
  "filepath_Ext ''p9.jpg'' = ''.jpg''" "filepath_Ext ''p3.jpg'' = ''.jpg''"
  "filepath_Ext ''p4.jpg'' = ''.jpg''"
  "isASCII ''.JPG''" "isASCII ''.jpg''"
  "map ascii_lower ''.JPG'' = ''.jpg''" "map ascii_lower ''.jpg'' = ''.jpg''"
  by (simp_all add: filepath_Ext_def IsPathSeparator_def isASCII_def ascii_lower_def)

lemma page_extensions:
  "isASCII (filepath_Ext (File \<lparr> File = ''Cover.JPG'', Number = n \<rparr>))"
  "isASCII (filepath_Ext (File \<lparr> File = ''p1.jpg'', Number = n \<rparr>))"
  "isASCII (filepath_Ext (File \<lparr> File = ''p9.jpg'', Number = n \<rparr>))"
  "isASCII (filepath_Ext (File \<lparr> File = ''p4.jpg'', Number = n \<rparr>))"
  by (simp_all add: extensions)

lemma tilt_dstPaths:
  "dstPath W copier_out tilt_scan \<lparr> File = ''Cover.JPG'', Number = 1 \<rparr> =
     ''/out/test-Tilt/Num'' @ e_acute @ ''ro 42 | Juin 1991/001.jpg''"
  "dstPath W copier_out tilt_broken \<lparr> File = ''p1.jpg'', Number = 1 \<rparr> =
     ''/out/test-Tilt/Num'' @ e_acute @ ''ro 42 | Juin 1991/001.jpg''"
  "dstPath W copier_out tilt_broken \<lparr> File = ''p9.jpg'', Number = 2 \<rparr> =
     ''/out/test-Tilt/Num'' @ e_acute @ ''ro 42 | Juin 1991/002.jpg''"
  "dstPath W copier_out tilt_next \<lparr> File = ''p4.jpg'', Number = 1 \<rparr> =
     ''/out/test-Tilt/Num'' @ e_acute @ ''ro 43 | Juillet - Ao'' @ u_circ @ ''t 1991/001.jpg''"
  by (simp_all add:
      dstPath_formula [OF tilt_title(1) page_extensions(1)]
      dstPath_formula [OF tilt_title(2) page_extensions(2)]
      dstPath_formula [OF tilt_title(2) page_extensions(3)]
      dstPath_formula [OF tilt_title(3) page_extensions(4)]
      tilt_number_folders fmt_values fmt_one extensions ascii_lower_def)

section \<open>When a page cannot be copied\<close>

lemma example_world_fs:
  "os_Mkdir (example_world t) path d =
     (if present path d then (Some (PathError ''mkdir'' path EEXIST), d)
      else (None, d \<lparr> dirs := path # dirs d \<rparr>))"
  "os_Create (example_world t) path d =
     (if path \<in> set (dirs d) then (Some (PathError ''open'' path EISDIR), d)
      else (None, d \<lparr> files := (path, []) # files d \<rparr>))"
  "io_Copy (example_world t) dst src d =
     (case map_of (files d) src of
        None \<Rightarrow> (Some (PathError ''read'' src EISDIR), d)
      | Some bytes \<Rightarrow> (None, d \<lparr> files := (dst, bytes) # files d \<rparr>))"
  "unicode_ToLower (example_world t) = (\<lambda>s. s)"
  by (simp_all add: example_world_def)

lemma example_createFolder:
  "createFolder (example_world t) folder d =
     (if present folder d then (None, d) else (None, d \<lparr> dirs := folder # dirs d \<rparr>))"
  by (simp add: createFolder_def example_world_sel(1) example_world_fs(1))

lemma copyPage_failure:
  "(fst (copyPage W c magazine magazinePage s) \<noteq> None) =
     (fst (os_Open W (srcPath magazine magazinePage) (sys s)) \<noteq> None
      \<or> fst (os_Create W (dstPath W c magazine magazinePage)
               (snd (os_Open W (srcPath magazine magazinePage) (sys s)))) \<noteq> None
      \<or> fst (io_Copy W (dstPath W c magazine magazinePage) (srcPath magazine magazinePage)
               (snd (os_Create W (dstPath W c magazine magazinePage)
                  (snd (os_Open W (srcPath magazine magazinePage) (sys s)))))) \<noteq> None)"
  by (auto simp: copyPage_def Let_def split: prod.splits option.splits)

lemma copyPage_failure_stdout:
  "copyPage W c magazine magazinePage s = (Some err, s1) \<Longrightarrow> stdout s1 = stdout s"
  by (auto simp: copyPage_def Let_def split: prod.splits option.splits)

lemma copyPages_append:
  "copyPages W c magazine before s = (None, s1) \<Longrightarrow>
   copyPages W c magazine (before @ later) s = copyPages W c magazine later s1"
proof (induction before arbitrary: s)
  case Nil
  then show ?case by simp
next
  case (Cons magazinePage rest)
  obtain r s2 where step: "copyPage W c magazine magazinePage s = (r, s2)"
    by (metis prod.collapse)
  with Cons.prems have "r = None" and "copyPages W c magazine rest s2 = (None, s1)"
    by (cases r; simp)+
  with step Cons.IH [of s2] show ?case by simp
qed

lemma renameFiles_stops:
  assumes "Pages magazine = before @ magazinePage # later"
    and "createFolder W (newPublicationFolder c magazine) (sys s) = (None, w1)"
    and "createFolder W (newPublicationFolderNumber c magazine) w1 = (None, w2)"
    and "copyPages W c magazine before
           ((Print (''Publication '' @ Title (Metadata magazine) @ '' #'' @
                fmt_d (unat (meta_Number (Metadata magazine))) @ newline) s) \<lparr> sys := w2 \<rparr>)
         = (None, s1)"
    and "copyPage W c magazine magazinePage s1 = (Some err, s2)"
  shows "renameFiles W c magazine s = (Some err, s2)"
proof -
  let ?s0 = "Print (''Publication '' @ Title (Metadata magazine) @ '' #'' @
                fmt_d (unat (meta_Number (Metadata magazine))) @ newline) s"
  have "copyPages W c magazine (before @ magazinePage # later) (?s0 \<lparr> sys := w2 \<rparr>)
      = copyPages W c magazine (magazinePage # later) s1"
    using assms(4) by (rule copyPages_append)
  also have "\<dots> = (Some err, s2)"
    using assms(5) by simp
  finally have pages: "copyPages W c magazine (Pages magazine) (?s0 \<lparr> sys := w2 \<rparr>)
      = (Some err, s2)"
    by (simp add: assms(1))
  show ?thesis
    using assms(2,3) pages by (simp add: renameFiles_def Let_def Print_def)
qed

text \<open>
  C1. When a page of a magazine cannot be opened, created or copied, after the pages
  before it were copied, \<open>renameFiles\<close> returns the error at that page: the pages
  after it are left alone, and nothing more is printed for the magazine. \<open>monitor\<close>
  then prints that the transfer failed and returns the error; the magazines that
  follow on the channel are not taken.
\<close>

theorem copier_stops_at_first_failure:
  assumes "Pages magazine = before @ magazinePage # later"
    and "createFolder W (newPublicationFolder c magazine) (sys s) = (None, w1)"
    and "createFolder W (newPublicationFolderNumber c magazine) w1 = (None, w2)"
    and "copyPages W c magazine before
           ((Print (''Publication '' @ Title (Metadata magazine) @ '' #'' @
                fmt_d (unat (meta_Number (Metadata magazine))) @ newline) s) \<lparr> sys := w2 \<rparr>)
         = (None, s1)"
    and "copyPage W c magazine magazinePage s1 = (Some err, s2)"
  shows "renameFiles W c magazine s = (Some err, s2)
    \<and> stdout s2 = stdout s @
        [''Publication '' @ Title (Metadata magazine) @ '' #'' @
           fmt_d (unat (meta_Number (Metadata magazine))) @ newline] @
        map (\<lambda>page. ''File '' @ dstPath W c magazine page @ '' copied'' @ newline) before
    \<and> copier_monitor W c (magazine # rest) s =
        (Some err,
         Print (''Unable to transfer '' @ Title (Metadata magazine) @ '' %!s(uint8='' @
                  fmt_d (unat (meta_Number (Metadata magazine))) @ ''): '' @
                  error_text err @ newline) s2)
    \<and> (fst (os_Open W (srcPath magazine magazinePage) (sys s1)) \<noteq> None
        \<or> fst (os_Create W (dstPath W c magazine magazinePage)
               (snd (os_Open W (srcPath magazine magazinePage) (sys s1)))) \<noteq> None
        \<or> fst (io_Copy W (dstPath W c magazine magazinePage) (srcPath magazine magazinePage)
               (snd (os_Create W (dstPath W c magazine magazinePage)
                  (snd (os_Open W (srcPath magazine magazinePage) (sys s1)))))) \<noteq> None)"
proof -
  let ?s0 = "Print (''Publication '' @ Title (Metadata magazine) @ '' #'' @
                fmt_d (unat (meta_Number (Metadata magazine))) @ newline) s"
  have run: "renameFiles W c magazine s = (Some err, s2)"
    using assms by (rule renameFiles_stops)
  have "stdout s1 = stdout (?s0 \<lparr> sys := w2 \<rparr>) @
      map (\<lambda>page. ''File '' @ dstPath W c magazine page @ '' copied'' @ newline) before"
    using assms(4) by (rule copyPages_stdout)
  moreover have "stdout s2 = stdout s1"
    using assms(5) by (rule copyPage_failure_stdout)
  ultimately have out: "stdout s2 = stdout s @
        [''Publication '' @ Title (Metadata magazine) @ '' #'' @
           fmt_d (unat (meta_Number (Metadata magazine))) @ newline] @
        map (\<lambda>page. ''File '' @ dstPath W c magazine page @ '' copied'' @ newline) before"
    by simp
  have "fst (copyPage W c magazine magazinePage s1) \<noteq> None"
    using assms(5) by simp
  then have cause: "fst (os_Open W (srcPath magazine magazinePage) (sys s1)) \<noteq> None
        \<or> fst (os_Create W (dstPath W c magazine magazinePage)
               (snd (os_Open W (srcPath magazine magazinePage) (sys s1)))) \<noteq> None
        \<or> fst (io_Copy W (dstPath W c magazine magazinePage) (srcPath magazine magazinePage)
               (snd (os_Create W (dstPath W c magazine magazinePage)
                  (snd (os_Open W (srcPath magazine magazinePage) (sys s1)))))) \<noteq> None"
    by (simp only: copyPage_failure)
  show ?thesis
    using run out cause by simp
qed

section \<open>Runs of the Copier in the example world\<close>

lemma srcPaths:
  "srcPath tilt_scan \<lparr> File = ''Cover.JPG'', Number = n \<rparr> = ''/in/B/Cover.JPG''"
  "srcPath tilt_broken \<lparr> File = ''p1.jpg'', Number = n \<rparr> = ''/in/A1/p1.jpg''"
  "srcPath tilt_broken \<lparr> File = ''p9.jpg'', Number = n \<rparr> = ''/in/A1/p9.jpg''"
  "srcPath tilt_next \<lparr> File = ''p4.jpg'', Number = n \<rparr> = ''/in/A1/p4.jpg''"
  by (simp_all add: srcPath_def tilt_scan_def tilt_broken_def tilt_next_def path_eval)



lemma broken_pages:
  "Pages tilt_broken =
     [\<lparr> File = ''p1.jpg'', Number = 1 \<rparr>] @ \<lparr> File = ''p9.jpg'', Number = 2 \<rparr> #
       [\<lparr> File = ''p3.jpg'', Number = 3 \<rparr>]"
  by (simp add: tilt_broken_def)

lemma broken_folders:
  "createFolder (example_world t) (newPublicationFolder copier_out tilt_broken) disk_A1 =
     (None, disk_A1 \<lparr> dirs := ''/out/test-Tilt'' # dirs disk_A1 \<rparr>)"
  "createFolder (example_world t) (newPublicationFolderNumber copier_out tilt_broken)
     (disk_A1 \<lparr> dirs := ''/out/test-Tilt'' # dirs disk_A1 \<rparr>) = (None, disk_A1_folders)"
  by (simp_all add: tilt_folders tilt_number_folders example_createFolder present_def disk_A1_def
      disk_A1_folders_def folder42_def e_acute_def)

lemma broken_first:
  "copyPages (example_world t) copier_out tilt_broken [\<lparr> File = ''p1.jpg'', Number = 1 \<rparr>]
     (s \<lparr> sys := disk_A1_folders \<rparr>) =
   (None, Print (''File '' @ folder42 @ ''/001.jpg copied'' @ newline)
            (s \<lparr> sys := disk_A1_first \<rparr>))"
  by (simp add: copyPage_def Let_def srcPaths tilt_dstPaths example_world_sel(2) example_world_fs
      present_def disk_A1_def disk_A1_folders_def disk_A1_first_def folder42_def e_acute_def)

lemma broken_second:
  "sys s = disk_A1_first \<Longrightarrow>
   copyPage (example_world t) copier_out tilt_broken \<lparr> File = ''p9.jpg'', Number = 2 \<rparr> s =
     (Some open_p9, s)"
  by (simp add: copyPage_def Let_def srcPaths tilt_dstPaths example_world_sel(2) present_def
      disk_A1_def disk_A1_folders_def disk_A1_first_def folder42_def e_acute_def open_p9_def)

lemma broken_run:
  "renameFiles (example_world t) copier_out tilt_broken (start disk_A1) =
     (Some open_p9,
      \<lparr> sys = disk_A1_first, auditLog = [],
        stdout =
          [''Publication Tilt #42'' @ newline,
           ''File '' @ folder42 @ ''/001.jpg copied'' @ newline],
        sent = [], closed = False \<rparr>)"
proof -
  let ?W = "example_world t"
  let ?line = "''Publication '' @ Title (Metadata tilt_broken) @ '' #'' @
                fmt_d (unat (meta_Number (Metadata tilt_broken))) @ newline"
  let ?s1 = "Print (''File '' @ folder42 @ ''/001.jpg copied'' @ newline)
            ((Print ?line (start disk_A1)) \<lparr> sys := disk_A1_first \<rparr>)"
  have f1: "createFolder ?W (newPublicationFolder copier_out tilt_broken) (sys (start disk_A1)) =
     (None, disk_A1 \<lparr> dirs := ''/out/test-Tilt'' # dirs disk_A1 \<rparr>)"
    by (simp add: start_def broken_folders)
  have before: "copyPages ?W copier_out tilt_broken [\<lparr> File = ''p1.jpg'', Number = 1 \<rparr>]
      ((Print ?line (start disk_A1)) \<lparr> sys := disk_A1_folders \<rparr>) = (None, ?s1)"
    by (rule broken_first)
  have "sys ?s1 = disk_A1_first" by (simp add: Print_def)
  then have failing: "copyPage ?W copier_out tilt_broken \<lparr> File = ''p9.jpg'', Number = 2 \<rparr> ?s1 =
      (Some open_p9, ?s1)"
    by (rule broken_second)
  from renameFiles_stops [OF broken_pages f1 broken_folders(2) before failing]
  show ?thesis
    by (simp add: tilt_fields fmt_values Print_def start_def)
qed

lemma next_run:
  "sys s = disk_A1_first \<Longrightarrow>
   fst (renameFiles (example_world t) copier_out tilt_next s) = None"
proof -
  assume s: "sys s = disk_A1_first"
  have pages: "Pages tilt_next = [\<lparr> File = ''p4.jpg'', Number = 1 \<rparr>]"
    by (simp add: tilt_next_def)
  show ?thesis
    unfolding renameFiles_def pages
    by (simp add: Let_def s tilt_folders tilt_number_folders example_createFolder present_def
        disk_A1_def disk_A1_folders_def disk_A1_first_def Print_def copyPage_def srcPaths
        tilt_dstPaths example_world_sel(2) example_world_fs folder42_def e_acute_def u_circ_def)
qed

text \<open>
  The first magazine of the channel fails at its second page, whose file is missing;
  \<open>monitor\<close> returns the error and the second magazine is never taken: nothing is
  printed for it and its page is not on the disk, although copying it from the state
  reached succeeds.
\<close>

theorem copier_monitor_leaves_next_magazine:
  "fst (copier_monitor (example_world no_tables) copier_out [tilt_broken, tilt_next]
          (start disk_A1)) = Some open_p9
   \<and> stdout (snd (copier_monitor (example_world no_tables) copier_out [tilt_broken, tilt_next]
          (start disk_A1))) =
       [''Publication Tilt #42'' @ newline,
        ''File '' @ folder42 @ ''/001.jpg copied'' @ newline,
        ''Unable to transfer Tilt %!s(uint8=42): '' @ error_text open_p9 @ newline]
   \<and> map_of (files (sys (snd (copier_monitor (example_world no_tables) copier_out
          [tilt_broken, tilt_next] (start disk_A1))))) (folder43 @ ''/001.jpg'') = None
   \<and> fst (renameFiles (example_world no_tables) copier_out tilt_next
          (snd (copier_monitor (example_world no_tables) copier_out [tilt_broken, tilt_next]
             (start disk_A1)))) = None"
proof -
  have run: "copier_monitor (example_world no_tables) copier_out [tilt_broken, tilt_next]
          (start disk_A1) =
     (Some open_p9,
      \<lparr> sys = disk_A1_first, auditLog = [],
        stdout =
          [''Publication Tilt #42'' @ newline,
           ''File '' @ folder42 @ ''/001.jpg copied'' @ newline,
           ''Unable to transfer Tilt %!s(uint8=42): '' @ error_text open_p9 @ newline],
        sent = [], closed = False \<rparr>)"
    by (simp add: broken_run tilt_fields fmt_values Print_def)
  have absent: "map_of (files disk_A1_first) (folder43 @ ''/001.jpg'') = None"
    by (simp add: disk_A1_first_def disk_A1_folders_def disk_A1_def folder42_def folder43_def
        e_acute_def u_circ_def)
  show ?thesis
    unfolding run by (simp add: absent next_run)
qed

theorem copier_stops_at_first_failure_witness:
  "copier_monitor (example_world no_tables) copier_out [tilt_broken, tilt_next] (start disk_A1) =
     (Some open_p9,
      \<lparr> sys = disk_A1_first, auditLog = [],
        stdout =
          [''Publication Tilt #42'' @ newline,
           ''File '' @ folder42 @ ''/001.jpg copied'' @ newline,
           ''Unable to transfer Tilt %!s(uint8=42): '' @ error_text open_p9 @ newline],
        sent = [], closed = False \<rparr>)"
proof -
  let ?W = "example_world no_tables"
  let ?line = "''Publication '' @ Title (Metadata tilt_broken) @ '' #'' @
                fmt_d (unat (meta_Number (Metadata tilt_broken))) @ newline"
  let ?s1 = "Print (''File '' @ folder42 @ ''/001.jpg copied'' @ newline)
            ((Print ?line (start disk_A1)) \<lparr> sys := disk_A1_first \<rparr>)"
  have f1: "createFolder ?W (newPublicationFolder copier_out tilt_broken) (sys (start disk_A1)) =
     (None, disk_A1 \<lparr> dirs := ''/out/test-Tilt'' # dirs disk_A1 \<rparr>)"
    by (simp add: start_def broken_folders)
  have before: "copyPages ?W copier_out tilt_broken [\<lparr> File = ''p1.jpg'', Number = 1 \<rparr>]
      ((Print ?line (start disk_A1)) \<lparr> sys := disk_A1_folders \<rparr>) = (None, ?s1)"
    by (rule broken_first)
  have "sys ?s1 = disk_A1_first" by (simp add: Print_def)
  then have failing: "copyPage ?W copier_out tilt_broken \<lparr> File = ''p9.jpg'', Number = 2 \<rparr> ?s1 =
      (Some open_p9, ?s1)"
    by (rule broken_second)
  from copier_stops_at_first_failure [OF broken_pages f1 broken_folders(2) before failing,
      where rest = "[tilt_next]"]
  show ?thesis
    by (simp add: tilt_fields fmt_values Print_def start_def)
qed




end
